theory Spec2Isabelle
  imports Complex_Main
begin

section \<open>JavaScript strings and the string methods the routes use\<close>

text \<open>
  The analysis routes work on the free text a vision model returns. A JavaScript string is
  modelled as a \<^typ>\<open>string\<close>: a list of 8-bit characters, read as the UTF-16 code units
  below 256. On that range the ECMAScript definitions are written out: the white space
  that \<^verbatim>\<open>trim\<close> strips and \<^verbatim>\<open>\s\<close> matches, the line terminators that
  \<^verbatim>\<open>.\<close> refuses, and the letters that \<^verbatim>\<open>toLowerCase\<close> changes.
\<close>

definition isWhiteSpace :: "char \<Rightarrow> bool" where
  "isWhiteSpace c \<longleftrightarrow>
     c \<in> set [CHR 0x09, CHR 0x0A, CHR 0x0B, CHR 0x0C, CHR 0x0D, CHR 0x20, CHR 0xA0]"

definition isLineTerminator :: "char \<Rightarrow> bool" where
  "isLineTerminator c \<longleftrightarrow> c \<in> set [CHR 0x0A, CHR 0x0D]"

definition isDigit :: "char \<Rightarrow> bool" where
  "isDigit c \<longleftrightarrow> c \<in> set ''0123456789''"

definition trim :: "string \<Rightarrow> string" where
  "trim s = rev (dropWhile isWhiteSpace (rev (dropWhile isWhiteSpace s)))"

definition lowerChar :: "char \<Rightarrow> char" where
  "lowerChar c =
     (let n = (of_char c :: nat)
      in if (65 \<le> n \<and> n \<le> 90) \<or> (192 \<le> n \<and> n \<le> 222 \<and> n \<noteq> 215)
         then char_of (n + 32) else c)"

definition toLowerCase :: "string \<Rightarrow> string" where
  "toLowerCase s = map lowerChar s"

definition startsWith :: "string \<Rightarrow> string \<Rightarrow> bool" where
  "startsWith s p \<longleftrightarrow> take (length p) s = p"

definition endsWith :: "string \<Rightarrow> string \<Rightarrow> bool" where
  "endsWith s p \<longleftrightarrow> length p \<le> length s \<and> drop (length s - length p) s = p"

text \<open>\<^verbatim>\<open>s.split(d)\<close> for a one-character separator: never the empty list.\<close>

fun split :: "char \<Rightarrow> string \<Rightarrow> string list" where
  "split d [] = [[]]"
| "split d (c # cs) =
     (if c = d then [] # split d cs
      else (case split d cs of [] \<Rightarrow> [[c]] | l # ls \<Rightarrow> (c # l) # ls))"

text \<open>\<^verbatim>\<open>s.slice(1, -1)\<close>: the string without its first and its last character.\<close>

definition slice_1_m1 :: "string \<Rightarrow> string" where
  "slice_1_m1 s = take (length s - 2) (drop 1 s)"

text \<open>
  \<^verbatim>\<open>s.replace(p, "")\<close> for a string pattern: the first occurrence of \<open>p\<close> is removed,
  and \<open>s\<close> is returned unchanged when there is none.
\<close>

fun replaceFirst :: "string \<Rightarrow> string \<Rightarrow> string" where
  "replaceFirst p [] = []"
| "replaceFirst p (c # cs) =
     (if take (length p) (c # cs) = p then drop (length p) (c # cs)
      else c # replaceFirst p cs)"

text \<open>\<^verbatim>\<open>xs.indexOf(x)\<close>: the first index holding \<open>x\<close>, or -1.\<close>

fun indexOf :: "'a list \<Rightarrow> 'a \<Rightarrow> int" where
  "indexOf [] x = -1"
| "indexOf (y # ys) x =
     (if y = x then 0 else (let i = indexOf ys x in if i < 0 then -1 else i + 1))"

text \<open>
  \<^verbatim>\<open>parseInt\<close> on a run of decimal digits. The result is a natural number here; the
  double that JavaScript returns holds it exactly below \<open>2 ^ 53\<close>.
\<close>

definition digitVal :: "char \<Rightarrow> nat" where
  "digitVal c = of_char c - 48"

definition parseInt :: "string \<Rightarrow> nat" where
  "parseInt ds = foldl (\<lambda>n c. 10 * n + digitVal c) 0 ds"

section \<open>The regular expressions of the routes\<close>

text \<open>
  Every regular expression in the two routes is a sequence of one-character items, each
  taken once, optionally (\<^verbatim>\<open>?\<close>), any number of times (\<^verbatim>\<open>*\<close>) or at least once
  (\<^verbatim>\<open>+\<close>), with at most one capture group around a \<^verbatim>\<open>+\<close> item. They are matched
  the way the ECMAScript matcher does it: each quantifier is greedy and gives characters
  back, one at a time, when the rest of the pattern fails.
\<close>

datatype atom =
    One "char \<Rightarrow> bool"
  | Opt "char \<Rightarrow> bool"
  | Star "char \<Rightarrow> bool"
  | CapPlus "char \<Rightarrow> bool"
  | CapStar "char \<Rightarrow> bool" string

definition withCap :: "string \<Rightarrow> (string \<times> string) option \<Rightarrow> (string \<times> string) option" where
  "withCap g r = (case r of None \<Rightarrow> None | Some (_, rest) \<Rightarrow> Some (g, rest))"

text \<open>
  \<open>matchAt re s\<close> matches \<open>re\<close> at the start of \<open>s\<close>: \<open>Some (g, rest)\<close> gives the text of the
  capture group and what follows the match.
\<close>

fun matchAt :: "atom list \<Rightarrow> string \<Rightarrow> (string \<times> string) option" where
  "matchAt [] s = Some ([], s)"
| "matchAt (One p # re) [] = None"
| "matchAt (One p # re) (c # cs) = (if p c then matchAt re cs else None)"
| "matchAt (Opt p # re) [] = matchAt re []"
| "matchAt (Opt p # re) (c # cs) =
     (if p c then (case matchAt re cs of Some r \<Rightarrow> Some r | None \<Rightarrow> matchAt re (c # cs))
      else matchAt re (c # cs))"
| "matchAt (Star p # re) [] = matchAt re []"
| "matchAt (Star p # re) (c # cs) =
     (if p c
      then (case matchAt (Star p # re) cs of Some r \<Rightarrow> Some r | None \<Rightarrow> matchAt re (c # cs))
      else matchAt re (c # cs))"
| "matchAt (CapPlus p # re) [] = None"
| "matchAt (CapPlus p # re) (c # cs) =
     (if p c then matchAt (CapStar p [c] # re) cs else None)"
| "matchAt (CapStar p g # re) [] = withCap g (matchAt re [])"
| "matchAt (CapStar p g # re) (c # cs) =
     (if p c
      then (case matchAt (CapStar p (g @ [c]) # re) cs of
              Some r \<Rightarrow> Some r
            | None \<Rightarrow> withCap g (matchAt re (c # cs)))
      else withCap g (matchAt re (c # cs)))"

text \<open>
  A pattern without \<^verbatim>\<open>^\<close> is tried at every position from the left; the result carries
  the index of the match.
\<close>

fun search :: "atom list \<Rightarrow> nat \<Rightarrow> string \<Rightarrow> (nat \<times> string \<times> string) option" where
  "search re i [] = (case matchAt re [] of None \<Rightarrow> None | Some (g, rest) \<Rightarrow> Some (i, g, rest))"
| "search re i (c # cs) =
     (case matchAt re (c # cs) of
        Some (g, rest) \<Rightarrow> Some (i, g, rest)
      | None \<Rightarrow> search re (Suc i) cs)"

text \<open>
  A literal under the \<^verbatim>\<open>i\<close> flag, and the character classes. The literals of the
  routes are ASCII, and a character matches an ASCII letter without regard to case only
  when it is that letter in upper or lower case.
\<close>

definition upperChar :: "char \<Rightarrow> char" where
  "upperChar c =
     (let n = (of_char c :: nat) in if 97 \<le> n \<and> n \<le> 122 then char_of (n - 32) else c)"

definition ci :: "char \<Rightarrow> char \<Rightarrow> bool" where
  "ci a c \<longleftrightarrow> upperChar c = upperChar a"

definition lit_ci :: "string \<Rightarrow> atom list" where
  "lit_ci s = map (\<lambda>a. One (ci a)) s"

definition star :: "char \<Rightarrow> bool" where
  "star c \<longleftrightarrow> c = CHR ''*''"

definition colon :: "char \<Rightarrow> bool" where
  "colon c \<longleftrightarrow> c = CHR '':''"

definition dot :: "char \<Rightarrow> bool" where
  "dot c \<longleftrightarrow> \<not> isLineTerminator c"

text \<open>\<^verbatim>\<open>/^\*?\*?FRAME\s*(\d+):?\*?\*?/i\<close>\<close>

definition frameRe :: "atom list" where
  "frameRe = [Opt star, Opt star] @ lit_ci ''FRAME'' @
             [Star isWhiteSpace, CapPlus isDigit, Opt colon, Opt star, Opt star]"

text \<open>\<^verbatim>\<open>/\*?\*?SEQUENCE_ANALYSIS:?\*?\*?/i\<close>, with \<^verbatim>\<open>^\<close> in the frame loop and without it in the
  summary extractor.\<close>

definition sequenceRe :: "atom list" where
  "sequenceRe = [Opt star, Opt star] @ lit_ci ''SEQUENCE_ANALYSIS'' @
                [Opt colon, Opt star, Opt star]"

text \<open>\<^verbatim>\<open>/\*?\*?LABEL:?\*?\*?\s*(.+)/i\<close> for the three labels of the summary section.\<close>

definition labelRe :: "string \<Rightarrow> atom list" where
  "labelRe l = [Opt star, Opt star] @ lit_ci l @
               [Opt colon, Opt star, Opt star, Star isWhiteSpace, CapPlus dot]"

text \<open>\<^verbatim>\<open>/^[\*\-]\s*/\<close>, the bullet mark that the lookahead removes.\<close>

definition bulletRe :: "atom list" where
  "bulletRe = [One (\<lambda>c. c = CHR ''*'' \<or> c = CHR ''-''), Star isWhiteSpace]"

text \<open>\<^verbatim>\<open>/^(ACTION:|PLAYER_MOVEMENT:|CONTACT:|BALL_STATUS:|FRAME|SEQUENCE_ANALYSIS)/i\<close>: the
  alternatives are tried in order, and nothing follows the group.\<close>

definition stopAlternatives :: "string list" where
  "stopAlternatives =
     [''ACTION:'', ''PLAYER_MOVEMENT:'', ''CONTACT:'', ''BALL_STATUS:'', ''FRAME'',
      ''SEQUENCE_ANALYSIS'']"

definition stopMatch :: "string \<Rightarrow> bool" where
  "stopMatch s \<longleftrightarrow> list_ex (\<lambda>a. matchAt (lit_ci a) s \<noteq> None) stopAlternatives"

text \<open>\<^verbatim>\<open>/\{[\s\S]*\}/\<close>: the text of the match, from the first \<^verbatim>\<open>{\<close> to the last
  \<^verbatim>\<open>}\<close> after it.\<close>

definition jsonRe :: "atom list" where
  "jsonRe = [One (\<lambda>c. c = CHR ''{''), Star (\<lambda>c. True), One (\<lambda>c. c = CHR ''}'')]"

definition jsonMatch :: "string \<Rightarrow> string option" where
  "jsonMatch text =
     (case search jsonRe 0 text of
        None \<Rightarrow> None
      | Some (i, g, rest) \<Rightarrow> Some (take (length text - i - length rest) (drop i text)))"

section \<open>The data of the analysis route\<close>

text \<open>A frame of the request: the path of its image and its time stamp in seconds.\<close>

record FrameData =
  path :: string
  timestamp :: int

text \<open>
  The five fields a model response describes, the record of one analysed frame
  (\<^verbatim>\<open>interface FrameAnalysis\<close>), and the object \<^verbatim>\<open>parseAnalysisResponse\<close> returns.
\<close>

record AnalysisFields =
  action :: string
  playerMovement :: string
  contact :: string
  ballStatus :: string
  foulIndicators :: "string list"

record FrameAnalysis = AnalysisFields +
  frameNumber :: nat
  timestamp :: int

record SingleAnalysis = AnalysisFields +
  analysisQuality :: string

section \<open>The foul-indicator parsers\<close>

text \<open>The last step of both parsers: split at commas, trim, drop the placeholders.\<close>

definition splitIndicators :: "string \<Rightarrow> string list" where
  "splitIndicators s =
     filter (\<lambda>i. length i > 0 \<and> toLowerCase i \<noteq> ''none'' \<and> toLowerCase i \<noteq> ''n/a'')
       (map trim (split (CHR '','') s))"

text \<open>\<^verbatim>\<open>parseFoulIndicators\<close>, the helper of the batch parser.\<close>

definition parseFoulIndicators :: "string \<Rightarrow> string list" where
  "parseFoulIndicators indicators =
     (if indicators = [] then []
      else if indicators = ''[]'' \<or> indicators = ''[ ]'' \<or>
              toLowerCase indicators = ''none'' \<or>
              toLowerCase indicators = ''no indicators'' \<or>
              toLowerCase indicators = ''n/a''
      then []
      else
        (let cleaned =
               (if startsWith indicators ''['' \<and> endsWith indicators '']''
                then trim (slice_1_m1 indicators) else indicators)
         in splitIndicators cleaned))"

text \<open>
  The \<^verbatim>\<open>FOUL_INDICATORS:\<close> branch of \<^verbatim>\<open>parseAnalysisResponse\<close>, the parser of the
  single-frame fallback: the value it assigns to \<^verbatim>\<open>analysis.foulIndicators\<close> for the
  text after the label.
\<close>

definition singleFoulIndicators :: "string \<Rightarrow> string list" where
  "singleFoulIndicators indicators =
     (if indicators \<noteq> [] then
        (if indicators = ''[]'' \<or> indicators = ''[ ]'' \<or>
            trim indicators = ''[]'' \<or> trim indicators = ''[ ]''
         then []
         else if startsWith indicators ''['' \<and> endsWith indicators '']'' then
           (let bracketContent = trim (slice_1_m1 indicators)
            in if bracketContent \<noteq> [] \<and>
                  toLowerCase bracketContent \<noteq> ''none'' \<and>
                  toLowerCase bracketContent \<noteq> ''no indicators'' \<and>
                  toLowerCase bracketContent \<noteq> ''n/a''
               then splitIndicators bracketContent
               else [])
         else
           (if toLowerCase indicators \<noteq> ''none'' \<and>
               toLowerCase indicators \<noteq> ''no indicators'' \<and>
               toLowerCase indicators \<noteq> ''no foul indicators'' \<and>
               toLowerCase indicators \<noteq> ''n/a'' \<and>
               toLowerCase indicators \<noteq> ''not applicable''
            then splitIndicators indicators
            else []))
      else [])"

text \<open>\<^verbatim>\<open>parseAnalysisResponse\<close>: one pass over the lines, a later line overwriting an
  earlier one with the same label.\<close>

definition initialAnalysis :: SingleAnalysis where
  "initialAnalysis =
     \<lparr>action = ''Unknown action'', playerMovement = ''Unknown movement'',
      contact = ''Unknown contact'', ballStatus = ''Unknown ball status'',
      foulIndicators = [], analysisQuality = ''fair''\<rparr>"

definition analysisLine :: "SingleAnalysis \<Rightarrow> string \<Rightarrow> SingleAnalysis" where
  "analysisLine analysis line =
     (let trimmedLine = trim line in
      if startsWith trimmedLine ''ACTION:'' then
        analysis\<lparr>action := trim (replaceFirst ''ACTION:'' trimmedLine)\<rparr>
      else if startsWith trimmedLine ''PLAYER_MOVEMENT:'' then
        analysis\<lparr>playerMovement := trim (replaceFirst ''PLAYER_MOVEMENT:'' trimmedLine)\<rparr>
      else if startsWith trimmedLine ''CONTACT:'' then
        analysis\<lparr>contact := trim (replaceFirst ''CONTACT:'' trimmedLine)\<rparr>
      else if startsWith trimmedLine ''BALL_STATUS:'' then
        analysis\<lparr>ballStatus := trim (replaceFirst ''BALL_STATUS:'' trimmedLine)\<rparr>
      else if startsWith trimmedLine ''ANALYSIS_QUALITY:'' then
        analysis\<lparr>analysisQuality :=
          toLowerCase (trim (replaceFirst ''ANALYSIS_QUALITY:'' trimmedLine))\<rparr>
      else if startsWith trimmedLine ''FOUL_INDICATORS:'' then
        analysis\<lparr>foulIndicators :=
          singleFoulIndicators (trim (replaceFirst ''FOUL_INDICATORS:'' trimmedLine))\<rparr>
      else analysis)"

definition parseAnalysisResponse :: "string \<Rightarrow> SingleAnalysis" where
  "parseAnalysisResponse text = foldl analysisLine initialAnalysis (split (CHR 0x0A) text)"

section \<open>The batch parser\<close>

text \<open>
  \<^verbatim>\<open>currentFrame\<close> is a \<^verbatim>\<open>Partial<FrameAnalysis>\<close>: each field is absent until a line
  sets it. \<^verbatim>\<open>x || d\<close> takes the default for an absent field and for the empty string.
\<close>

record PartialFrame =
  action' :: "string option"
  playerMovement' :: "string option"
  contact' :: "string option"
  ballStatus' :: "string option"
  foulIndicators' :: "string list option"

definition emptyFrame :: PartialFrame where
  "emptyFrame =
     \<lparr>action' = None, playerMovement' = None, contact' = None, ballStatus' = None,
      foulIndicators' = None\<rparr>"

definition orElse :: "string option \<Rightarrow> string \<Rightarrow> string" where
  "orElse x d = (case x of None \<Rightarrow> d | Some s \<Rightarrow> if s = [] then d else s)"

text \<open>\<^verbatim>\<open>frames[n - 1]?.timestamp || 0\<close>, for a frame number \<open>n > 0\<close>.\<close>

definition timestampOf :: "FrameData list \<Rightarrow> nat \<Rightarrow> int" where
  "timestampOf frames n =
     (if n - 1 < length frames then FrameData.timestamp (frames ! (n - 1)) else 0)"

definition finishFrame :: "FrameData list \<Rightarrow> nat \<Rightarrow> PartialFrame \<Rightarrow> FrameAnalysis" where
  "finishFrame frames n cur =
     \<lparr>action = orElse (action' cur) ''Unknown action'',
      playerMovement = orElse (playerMovement' cur) ''Unknown movement'',
      contact = orElse (contact' cur) ''Unknown contact'',
      ballStatus = orElse (ballStatus' cur) ''Unknown ball status'',
      foulIndicators = (case foulIndicators' cur of None \<Rightarrow> [] | Some is \<Rightarrow> is),
      frameNumber = n,
      timestamp = timestampOf frames n\<rparr>"

text \<open>
  The lookahead after an empty \<^verbatim>\<open>FOUL_INDICATORS:\<close> line, on the lines from
  \<^verbatim>\<open>nextIndex\<close> on: a bullet line gives its content, a blank line is skipped, and the
  first line of any other kind ends the loop.
\<close>

definition bulletContent :: "string \<Rightarrow> string" where
  "bulletContent nextLine =
     trim (case matchAt bulletRe nextLine of None \<Rightarrow> nextLine | Some (g, rest) \<Rightarrow> rest)"

fun collectBullets :: "string list \<Rightarrow> string list" where
  "collectBullets [] = []"
| "collectBullets (l # ls) =
     (let nextLine = trim l in
      if startsWith nextLine ''*'' \<or> startsWith nextLine ''-'' then
        (if bulletContent nextLine \<noteq> [] then [bulletContent nextLine] else [])
          @ collectBullets ls
      else if stopMatch nextLine then []
      else if nextLine = [] then collectBullets ls
      else [])"

text \<open>
  The lines the lookahead reads: those after \<^verbatim>\<open>lines.indexOf(line)\<close>, the first line of
  the response equal to the current one.
\<close>

definition linesAfter :: "string list \<Rightarrow> string \<Rightarrow> string list" where
  "linesAfter lines line = drop (nat (indexOf lines line + 1)) lines"

definition frameField :: "string list \<Rightarrow> string \<Rightarrow> string \<Rightarrow> PartialFrame \<Rightarrow> PartialFrame" where
  "frameField lines line trimmedLine cur =
     (if startsWith trimmedLine ''ACTION:'' then
        cur\<lparr>action' := Some (trim (replaceFirst ''ACTION:'' trimmedLine))\<rparr>
      else if startsWith trimmedLine ''PLAYER_MOVEMENT:'' then
        cur\<lparr>playerMovement' := Some (trim (replaceFirst ''PLAYER_MOVEMENT:'' trimmedLine))\<rparr>
      else if startsWith trimmedLine ''CONTACT:'' then
        cur\<lparr>contact' := Some (trim (replaceFirst ''CONTACT:'' trimmedLine))\<rparr>
      else if startsWith trimmedLine ''BALL_STATUS:'' then
        cur\<lparr>ballStatus' := Some (trim (replaceFirst ''BALL_STATUS:'' trimmedLine))\<rparr>
      else if startsWith trimmedLine ''FOUL_INDICATORS:'' then
        (let indicators = trim (replaceFirst ''FOUL_INDICATORS:'' trimmedLine) in
         if indicators = [] then
           cur\<lparr>foulIndicators' := Some (collectBullets (linesAfter lines line))\<rparr>
         else cur\<lparr>foulIndicators' := Some (parseFoulIndicators indicators)\<rparr>)
      else cur)"

text \<open>The state of the loop over the lines, and what the loop does with one line.\<close>

record scan =
  frameAnalyses :: "FrameAnalysis list"
  currentFrame :: "PartialFrame option"
  currentFrameNumber :: nat

definition initialScan :: scan where
  "initialScan = \<lparr>frameAnalyses = [], currentFrame = None, currentFrameNumber = 0\<rparr>"

text \<open>\<^verbatim>\<open>if (currentFrame && currentFrameNumber > 0) frameAnalyses.push(...)\<close>\<close>

definition saveFrame :: "FrameData list \<Rightarrow> scan \<Rightarrow> FrameAnalysis list" where
  "saveFrame frames st =
     (case currentFrame st of
        None \<Rightarrow> frameAnalyses st
      | Some cur \<Rightarrow>
          if currentFrameNumber st > 0
          then frameAnalyses st @ [finishFrame frames (currentFrameNumber st) cur]
          else frameAnalyses st)"

fun scanLines :: "FrameData list \<Rightarrow> string list \<Rightarrow> string list \<Rightarrow> scan \<Rightarrow> scan" where
  "scanLines frames lines [] st = st"
| "scanLines frames lines (line # rest) st =
     (let trimmedLine = trim line in
      case matchAt frameRe trimmedLine of
        Some (g, r) \<Rightarrow>
          scanLines frames lines rest
            \<lparr>frameAnalyses = saveFrame frames st, currentFrame = Some emptyFrame,
             currentFrameNumber = parseInt g\<rparr>
      | None \<Rightarrow>
          (let st' =
                 (case currentFrame st of
                    None \<Rightarrow> st
                  | Some cur \<Rightarrow>
                      if trimmedLine \<noteq> []
                      then st\<lparr>currentFrame := Some (frameField lines line trimmedLine cur)\<rparr>
                      else st)
           in if matchAt sequenceRe trimmedLine \<noteq> None then st'
              else scanLines frames lines rest st'))"

text \<open>The entries made when no frame was parsed: one per input frame.\<close>

definition defaultEntry :: "nat \<Rightarrow> FrameData \<Rightarrow> FrameAnalysis" where
  "defaultEntry index frame =
     \<lparr>action = ''Failed to parse multi-frame analysis'', playerMovement = ''Unknown'',
      contact = ''Unknown'', ballStatus = ''Unknown'', foulIndicators = [],
      frameNumber = index + 1, timestamp = FrameData.timestamp frame\<rparr>"

definition parsedFrames :: "string \<Rightarrow> FrameData list \<Rightarrow> FrameAnalysis list" where
  "parsedFrames text frames =
     (let lines = split (CHR 0x0A) text
      in saveFrame frames (scanLines frames lines lines initialScan))"

definition parseMultiFrameAnalysis :: "string \<Rightarrow> FrameData list \<Rightarrow> FrameAnalysis list" where
  "parseMultiFrameAnalysis text frames =
     (if length (parsedFrames text frames) = 0
      then map (\<lambda>(index, frame). defaultEntry index frame) (enumerate 0 frames)
      else parsedFrames text frames)"

section \<open>The summary extractor\<close>

text \<open>
  \<^verbatim>\<open>extractSequenceAnalysis\<close> builds an object that starts empty; a key is present once a
  line has set it.
\<close>

record SequenceAnalysis =
  progression :: "string option"
  keyMoments :: "string option"
  foulDetermination :: "string option"

definition emptyAnalysis :: SequenceAnalysis where
  "emptyAnalysis = \<lparr>progression = None, keyMoments = None, foulDetermination = None\<rparr>"

text \<open>\<^verbatim>\<open>trimmedLine.match(re)\<close> for a label, and the trimmed text of its group.\<close>

definition labelMatch :: "string \<Rightarrow> string \<Rightarrow> string option" where
  "labelMatch label trimmedLine =
     (case search (labelRe label) 0 trimmedLine of
        None \<Rightarrow> None
      | Some (i, g, rest) \<Rightarrow> Some (trim g))"

definition sequenceLine :: "SequenceAnalysis \<Rightarrow> string \<Rightarrow> SequenceAnalysis" where
  "sequenceLine analysis line =
     (let trimmedLine = trim line;
          progressionMatch = labelMatch ''PROGRESSION'' trimmedLine;
          keyMomentsMatch = labelMatch ''KEY_MOMENTS'' trimmedLine;
          foulDeterminationMatch = labelMatch ''FOUL_DETERMINATION'' trimmedLine
      in case progressionMatch of
           Some v \<Rightarrow> analysis\<lparr>progression := Some v\<rparr>
         | None \<Rightarrow>
             (case keyMomentsMatch of
                Some v \<Rightarrow> analysis\<lparr>keyMoments := Some v\<rparr>
              | None \<Rightarrow>
                  (case foulDeterminationMatch of
                     Some v \<Rightarrow> analysis\<lparr>foulDetermination := Some v\<rparr>
                   | None \<Rightarrow> analysis)))"

text \<open>
  \<^verbatim>\<open>!sequenceMatch || !sequenceMatch.index\<close> holds when there is no match and when the
  match is at index 0; \<^verbatim>\<open>Object.keys(analysis).length > 0\<close> holds when a key is present.
\<close>

definition extractSequenceAnalysis :: "string \<Rightarrow> SequenceAnalysis option" where
  "extractSequenceAnalysis text =
     (case search sequenceRe 0 text of
        None \<Rightarrow> None
      | Some (index, g, rest) \<Rightarrow>
          if index = 0 then None
          else
            (let sequenceText = drop index text;
                 lines = split (CHR 0x0A) sequenceText;
                 analysis = foldl sequenceLine emptyAnalysis lines
             in if progression analysis \<noteq> None \<or> keyMoments analysis \<noteq> None \<or>
                   foulDetermination analysis \<noteq> None
                then Some analysis else None))"

section \<open>JSON values and \<^verbatim>\<open>JSON.parse\<close>\<close>

text \<open>
  The determination route parses the answer of the generation model with
  \<^verbatim>\<open>JSON.parse\<close>. A parsed string is a list of UTF-16 code units, since an escape
  \<^verbatim>\<open>\uXXXX\<close> can denote any of them; a number is kept as the text that denotes it. An
  object is the list of its members in the order of their first occurrence, a later
  member with the same key replacing the value of the earlier one; only the value found
  under a key is read below, never the order.
\<close>

type_synonym jstring = "nat list"

datatype json =
    JNull
  | JBool bool
  | JNumber string
  | JString jstring
  | JArray "json list"
  | JObject "(jstring \<times> json) list"

definition js :: "string \<Rightarrow> jstring" where
  "js s = map of_char s"

fun setField :: "(jstring \<times> json) list \<Rightarrow> jstring \<Rightarrow> json \<Rightarrow> (jstring \<times> json) list" where
  "setField [] k v = [(k, v)]"
| "setField ((k', v') # kvs) k v =
     (if k' = k then (k, v) # kvs else (k', v') # setField kvs k v)"

text \<open>\<^verbatim>\<open>obj[name]\<close>: the value of a member, or nothing (\<^verbatim>\<open>undefined\<close>).\<close>

definition field :: "json \<Rightarrow> string \<Rightarrow> json option" where
  "field v name = (case v of JObject kvs \<Rightarrow> map_of kvs (js name) | _ \<Rightarrow> None)"

text \<open>
  A failed parse is a \<^verbatim>\<open>SyntaxError\<close>. The parser below recurses on a counter that a
  nested value decreases; \<open>OutOfFuel\<close> tells that the counter ran out, which does not
  happen when it starts above twice the length of the text.
\<close>

datatype parse_error = SyntaxError | OutOfFuel

definition isJsonWs :: "char \<Rightarrow> bool" where
  "isJsonWs c \<longleftrightarrow> c \<in> set [CHR 0x09, CHR 0x0A, CHR 0x0D, CHR 0x20]"

definition skipWs :: "string \<Rightarrow> string" where
  "skipWs s = dropWhile isJsonWs s"

definition hexVal :: "char \<Rightarrow> nat option" where
  "hexVal c =
     (let n = (of_char c :: nat)
      in if 48 \<le> n \<and> n \<le> 57 then Some (n - 48)
         else if 65 \<le> n \<and> n \<le> 70 then Some (n - 55)
         else if 97 \<le> n \<and> n \<le> 102 then Some (n - 87)
         else None)"

definition hex4 :: "char \<Rightarrow> char \<Rightarrow> char \<Rightarrow> char \<Rightarrow> nat option" where
  "hex4 a b c d =
     (case (hexVal a, hexVal b, hexVal c, hexVal d) of
        (Some w, Some x, Some y, Some z) \<Rightarrow> Some (((w * 16 + x) * 16 + y) * 16 + z)
      | _ \<Rightarrow> None)"

definition unescape :: "char \<Rightarrow> nat option" where
  "unescape e =
     (if e = CHR 0x22 then Some 0x22
      else if e = CHR 0x5C then Some 0x5C
      else if e = CHR ''/'' then Some 0x2F
      else if e = CHR ''b'' then Some 0x08
      else if e = CHR ''f'' then Some 0x0C
      else if e = CHR ''n'' then Some 0x0A
      else if e = CHR ''r'' then Some 0x0D
      else if e = CHR ''t'' then Some 0x09
      else None)"

text \<open>The characters of a string after its opening quote, up to the closing one.\<close>

fun parseChars :: "string \<Rightarrow> jstring \<Rightarrow> (jstring \<times> string) option" where
  "parseChars [] acc = None"
| "parseChars (c # cs) acc =
     (if c = CHR 0x22 then Some (acc, cs)
      else if c = CHR 0x5C then
        (case cs of
           [] \<Rightarrow> None
         | e # cs' \<Rightarrow>
             if e = CHR ''u'' then
               (case cs' of
                  h1 # h2 # h3 # h4 # r \<Rightarrow>
                    (case hex4 h1 h2 h3 h4 of
                       None \<Rightarrow> None
                     | Some u \<Rightarrow> parseChars r (acc @ [u]))
                | _ \<Rightarrow> None)
             else
               (case unescape e of
                  None \<Rightarrow> None
                | Some u \<Rightarrow> parseChars cs' (acc @ [u])))
      else if (of_char c :: nat) < 32 then None
      else parseChars cs (acc @ [of_char c]))"

text \<open>A number: \<^verbatim>\<open>-?(0|[1-9][0-9]*)(\.[0-9]+)?([eE][+-]?[0-9]+)?\<close>.\<close>

definition parseFraction :: "string \<Rightarrow> (string \<times> string) option" where
  "parseFraction s =
     (case s of
        [] \<Rightarrow> Some ([], s)
      | c # cs \<Rightarrow>
          if c = CHR ''.'' then
            (if takeWhile isDigit cs = [] then None
             else Some (c # takeWhile isDigit cs, dropWhile isDigit cs))
          else Some ([], s))"

definition parseExponent :: "string \<Rightarrow> (string \<times> string) option" where
  "parseExponent s =
     (case s of
        [] \<Rightarrow> Some ([], s)
      | c # cs \<Rightarrow>
          if c = CHR ''e'' \<or> c = CHR ''E'' then
            (let sign = takeWhile (\<lambda>x. x = CHR ''+'' \<or> x = CHR ''-'') (take 1 cs);
                 ds = drop (length sign) cs
             in if takeWhile isDigit ds = [] then None
                else Some (c # sign @ takeWhile isDigit ds, dropWhile isDigit ds))
          else Some ([], s))"

definition parseNumber :: "string \<Rightarrow> (string \<times> string) option" where
  "parseNumber s =
     (let sign = takeWhile (\<lambda>x. x = CHR ''-'') (take 1 s);
          s1 = drop (length sign) s
      in case s1 of
           [] \<Rightarrow> None
         | c # cs \<Rightarrow>
             if \<not> isDigit c then None
             else
               (let ds = (if c = CHR ''0'' then [] else takeWhile isDigit cs);
                    s2 = drop (length ds) cs
                in case parseFraction s2 of
                     None \<Rightarrow> None
                   | Some (f, s3) \<Rightarrow>
                       (case parseExponent s3 of
                          None \<Rightarrow> None
                        | Some (e, s4) \<Rightarrow> Some (sign @ c # ds @ f @ e, s4))))"

text \<open>A value, the elements of an array after the first, and the members of an object.\<close>

fun parseValue :: "nat \<Rightarrow> string \<Rightarrow> parse_error + (json \<times> string)"
  and parseElements :: "nat \<Rightarrow> string \<Rightarrow> json list \<Rightarrow> parse_error + (json \<times> string)"
  and parseMembers ::
    "nat \<Rightarrow> string \<Rightarrow> (jstring \<times> json) list \<Rightarrow> parse_error + (json \<times> string)"
where
  "parseValue 0 s = Inl OutOfFuel"
| "parseValue (Suc n) s =
     (case s of
        [] \<Rightarrow> Inl SyntaxError
      | c # cs \<Rightarrow>
          if c = CHR ''{'' then
            (case skipWs cs of
               [] \<Rightarrow> Inl SyntaxError
             | d # ds \<Rightarrow> if d = CHR ''}'' then Inr (JObject [], ds) else parseMembers n (d # ds) [])
          else if c = CHR ''['' then
            (case skipWs cs of
               [] \<Rightarrow> Inl SyntaxError
             | d # ds \<Rightarrow> if d = CHR '']'' then Inr (JArray [], ds) else parseElements n (d # ds) [])
          else if c = CHR 0x22 then
            (case parseChars cs [] of
               None \<Rightarrow> Inl SyntaxError
             | Some (str, r) \<Rightarrow> Inr (JString str, r))
          else if startsWith s ''true'' then Inr (JBool True, drop 4 s)
          else if startsWith s ''false'' then Inr (JBool False, drop 5 s)
          else if startsWith s ''null'' then Inr (JNull, drop 4 s)
          else
            (case parseNumber s of
               None \<Rightarrow> Inl SyntaxError
             | Some (lexeme, r) \<Rightarrow> Inr (JNumber lexeme, r)))"
| "parseElements 0 s acc = Inl OutOfFuel"
| "parseElements (Suc n) s acc =
     (case parseValue n s of
        Inl e \<Rightarrow> Inl e
      | Inr (v, r) \<Rightarrow>
          (case skipWs r of
             [] \<Rightarrow> Inl SyntaxError
           | d # ds \<Rightarrow>
               if d = CHR '','' then parseElements n (skipWs ds) (acc @ [v])
               else if d = CHR '']'' then Inr (JArray (acc @ [v]), ds)
               else Inl SyntaxError))"
| "parseMembers 0 s acc = Inl OutOfFuel"
| "parseMembers (Suc n) s acc =
     (case s of
        [] \<Rightarrow> Inl SyntaxError
      | q # cs \<Rightarrow>
          if q \<noteq> CHR 0x22 then Inl SyntaxError
          else
            (case parseChars cs [] of
               None \<Rightarrow> Inl SyntaxError
             | Some (k, r1) \<Rightarrow>
                 (case skipWs r1 of
                    [] \<Rightarrow> Inl SyntaxError
                  | col # r2 \<Rightarrow>
                      if col \<noteq> CHR '':'' then Inl SyntaxError
                      else
                        (case parseValue n (skipWs r2) of
                           Inl e \<Rightarrow> Inl e
                         | Inr (v, r3) \<Rightarrow>
                             (case skipWs r3 of
                                [] \<Rightarrow> Inl SyntaxError
                              | d # ds \<Rightarrow>
                                  if d = CHR '','' then
                                    parseMembers n (skipWs ds) (setField acc k v)
                                  else if d = CHR ''}'' then
                                    Inr (JObject (setField acc k v), ds)
                                  else Inl SyntaxError)))))"

text \<open>\<^verbatim>\<open>JSON.parse(text)\<close>: one value, with white space around it and nothing else.\<close>

definition JSON_parse :: "string \<Rightarrow> parse_error + json" where
  "JSON_parse text =
     (case parseValue (2 * length text + 1) (skipWs text) of
        Inl e \<Rightarrow> Inl e
      | Inr (v, r) \<Rightarrow> if skipWs r = [] then Inr v else Inl SyntaxError)"

section \<open>The determination step\<close>

text \<open>
  \<^verbatim>\<open>makeFinalDetermination\<close> sends one prompt to the generation model and reads the
  answer. Its argument here is the outcome of that call: the text of the answer, or the
  error the call threw. The \<^verbatim>\<open>catch\<close> block of the function logs an error and throws
  it again, so an error of the call and an error of \<^verbatim>\<open>JSON.parse\<close> both leave the
  function.
\<close>

datatype step_error = GenerationFailed | ParseFailed parse_error

definition fallbackDetermination :: json where
  "fallbackDetermination =
     JObject
       [(js ''hasFoul'', JBool False),
        (js ''confidence'', JString (js ''low'')),
        (js ''ruleCitations'', JArray []),
        (js ''explanation'',
           JString (js ''Unable to make a clear determination based on the available information.'')),
        (js ''keyMoments'', JArray [])]"

definition makeFinalDetermination :: "step_error + string \<Rightarrow> step_error + json" where
  "makeFinalDetermination generated =
     (case generated of
        Inl e \<Rightarrow> Inl e
      | Inr text \<Rightarrow>
          (case jsonMatch text of
             Some m \<Rightarrow>
               (case JSON_parse m of
                  Inl e \<Rightarrow> Inl (ParseFailed e)
                | Inr determination \<Rightarrow> Inr determination)
           | None \<Rightarrow> Inr fallbackDetermination))"

section \<open>Numbers and the summary of an analysis\<close>

text \<open>
  A JavaScript number is an IEEE 754 double. The summary divides one array length by
  another and multiplies by 100, so the values that occur are \<^verbatim>\<open>NaN\<close>, infinity and
  finite doubles, which are rational numbers. \<open>toDouble x\<close> is the double nearest to the
  rational \<open>x\<close>, a tie going to the even significand: the result of an arithmetic
  operation whose exact value is \<open>x\<close>. It is written for the normal range of doubles, in
  which a quotient of two array lengths and its product with 100 lie.
\<close>

datatype number = NaN | Infinity | Finite rat

definition pow2 :: "int \<Rightarrow> rat" where
  "pow2 e = (if 0 \<le> e then 2 ^ nat e else 1 / 2 ^ nat (- e))"

text \<open>The number of binary digits of a positive integer.\<close>

function bits :: "int \<Rightarrow> int" where
  "bits n = (if n \<le> 0 then 0 else 1 + bits (n div 2))"
  by pat_completeness auto
termination
  by (relation "measure nat") auto

declare bits.simps [simp del]

text \<open>For \<open>x > 0\<close>, the \<open>e\<close> with \<open>2 ^ e \<le> x < 2 ^ (e + 1)\<close>.\<close>

definition exponent :: "rat \<Rightarrow> int" where
  "exponent x =
     (let (p, q) = quotient_of x;
          d = bits p - bits q
      in if pow2 d \<le> x then d else d - 1)"

definition roundHalfEven :: "rat \<Rightarrow> int" where
  "roundHalfEven y =
     (let f = \<lfloor>y\<rfloor>; r = y - of_int f
      in if r < 1 / 2 then f else if 1 / 2 < r then f + 1 else if even f then f else f + 1)"

definition toDouble :: "rat \<Rightarrow> rat" where
  "toDouble x =
     (if x = 0 then 0
      else
        (let a = \<bar>x\<bar>; ulp = pow2 (exponent a - 52)
         in sgn x * of_int (roundHalfEven (a / ulp)) * ulp))"

text \<open>\<^verbatim>\<open>k / n\<close> for two array lengths, \<^verbatim>\<open>x * 100\<close> and \<^verbatim>\<open>Math.round(x)\<close>.\<close>

definition divide_lengths :: "nat \<Rightarrow> nat \<Rightarrow> number" where
  "divide_lengths k n =
     (if n = 0 then (if k = 0 then NaN else Infinity)
      else Finite (toDouble (of_nat k / of_nat n)))"

definition times_100 :: "number \<Rightarrow> number" where
  "times_100 x =
     (case x of NaN \<Rightarrow> NaN | Infinity \<Rightarrow> Infinity | Finite r \<Rightarrow> Finite (toDouble (r * 100)))"

definition Math_round :: "number \<Rightarrow> number" where
  "Math_round x =
     (case x of NaN \<Rightarrow> NaN | Infinity \<Rightarrow> Infinity | Finite r \<Rightarrow> Finite (of_int \<lfloor>r + 1 / 2\<rfloor>))"

text \<open>\<^verbatim>\<open>[...new Set(xs)]\<close>: each element once, in the order of the first occurrences.\<close>

definition newSet :: "'a list \<Rightarrow> 'a list" where
  "newSet xs = foldl (\<lambda>seen x. if x \<in> set seen then seen else seen @ [x]) [] xs"

record AnalysisSummary =
  totalFrames :: nat
  framesWithFoulIndicators :: nat
  foulIndicatorPercentage :: number
  commonFoulIndicators :: "string list"
  recommendation :: string

definition generateAnalysisSummary :: "FrameAnalysis list \<Rightarrow> AnalysisSummary" where
  "generateAnalysisSummary analyses =
     (let totalFrames = length analyses;
          framesWithFoulIndicators = length (filter (\<lambda>a. length (foulIndicators a) > 0) analyses);
          allFoulIndicators = concat (map foulIndicators analyses);
          uniqueFoulIndicators = newSet allFoulIndicators
      in \<lparr>totalFrames = totalFrames,
          framesWithFoulIndicators = framesWithFoulIndicators,
          foulIndicatorPercentage =
            Math_round (times_100 (divide_lengths framesWithFoulIndicators totalFrames)),
          commonFoulIndicators = uniqueFoulIndicators,
          recommendation =
            (if framesWithFoulIndicators > 0
             then ''Potential foul detected - review flagged frames''
             else ''No clear foul indicators detected'')\<rparr>)"

section \<open>The analysis route\<close>

text \<open>
  The body of a request, as \<^verbatim>\<open>request.json()\<close> gives it. The field \<^verbatim>\<open>frames\<close> can be
  anything: a value that \<^verbatim>\<open>!frames\<close> takes for absent (\<^verbatim>\<open>undefined\<close>, \<^verbatim>\<open>null\<close>, an
  empty string, 0), another value that is not an array, or an array of frames.
\<close>

datatype frames_field = FramesMissing | FramesNotArray | FramesArray "FrameData list"

record request =
  framesField :: frames_field
  timestampField :: "int option"

text \<open>
  What the route meets outside: whether the image at a path can be read, the answer of
  the model to the batch call and to the call for the frame at an index (nothing when the
  call throws), whether the analysis file can be written, and the clock.
\<close>

record world =
  readFile :: "string \<Rightarrow> bool"
  generateBatch :: "FrameData list \<Rightarrow> string option"
  generateSingle :: "nat \<Rightarrow> string option"
  writeFile :: bool
  now :: int

text \<open>The calls the route makes, in order.\<close>

datatype event =
    ReadFile string
  | GenerateBatch nat
  | GenerateSingle nat
  | WriteFile
  | FetchFoul

datatype message = Analyzed nat | AnalyzedNotSaved nat | AnalyzedFallback nat

record success =
  analyses :: "FrameAnalysis list"
  analysisId :: "int option"
  summary :: AnalysisSummary
  sequenceAnalysis :: "SequenceAnalysis option"
  message :: message

datatype response =
    BadRequest string
  | ServerError string
  | Success success

text \<open>\<^verbatim>\<open>timestamp || Date.now()\<close>\<close>

definition analysisTimestamp :: "world \<Rightarrow> request \<Rightarrow> int" where
  "analysisTimestamp w req =
     (case timestampField req of None \<Rightarrow> now w | Some t \<Rightarrow> if t = 0 then now w else t)"

text \<open>
  One round of the fallback loop, for the frame at index \<open>i\<close>: the record pushed and the
  calls made. An error of \<^verbatim>\<open>readFile\<close> or of the model call is caught inside the loop.
\<close>

definition failedFrame :: "nat \<Rightarrow> FrameData \<Rightarrow> FrameAnalysis" where
  "failedFrame i frame =
     \<lparr>action = ''Failed to analyze frame'', playerMovement = ''Unknown'',
      contact = ''Unknown'', ballStatus = ''Unknown'', foulIndicators = [],
      frameNumber = i + 1, timestamp = FrameData.timestamp frame\<rparr>"

definition analysedFrame :: "nat \<Rightarrow> FrameData \<Rightarrow> string \<Rightarrow> FrameAnalysis" where
  "analysedFrame i frame text =
     (let analysis = parseAnalysisResponse (trim text)
      in \<lparr>action = action analysis, playerMovement = playerMovement analysis,
          contact = contact analysis, ballStatus = ballStatus analysis,
          foulIndicators = foulIndicators analysis,
          frameNumber = i + 1, timestamp = FrameData.timestamp frame\<rparr>)"

definition fallbackFrame :: "world \<Rightarrow> nat \<Rightarrow> FrameData \<Rightarrow> FrameAnalysis \<times> event list" where
  "fallbackFrame w i frame =
     (if \<not> readFile w (path frame) then (failedFrame i frame, [ReadFile (path frame)])
      else
        (case generateSingle w i of
           None \<Rightarrow> (failedFrame i frame, [ReadFile (path frame), GenerateSingle i])
         | Some text \<Rightarrow>
             (analysedFrame i frame text, [ReadFile (path frame), GenerateSingle i])))"

fun fallbackLoop :: "world \<Rightarrow> nat \<Rightarrow> FrameData list \<Rightarrow> FrameAnalysis list \<times> event list" where
  "fallbackLoop w i [] = ([], [])"
| "fallbackLoop w i (frame # rest) =
     (let (a, ev) = fallbackFrame w i frame;
          (as, evs) = fallbackLoop w (Suc i) rest
      in (a # as, ev @ evs))"

text \<open>
  The \<^verbatim>\<open>catch\<close> block of the batch analysis: the loop, then the file and the call of the
  determination route. An error of \<^verbatim>\<open>writeFile\<close> here reaches the outer \<^verbatim>\<open>catch\<close>.
\<close>

definition fallbackPath :: "world \<Rightarrow> request \<Rightarrow> FrameData list \<Rightarrow> response \<times> event list" where
  "fallbackPath w req frames =
     (let (frameAnalyses, evs) = fallbackLoop w 0 frames
      in if writeFile w then
           (Success
              \<lparr>analyses = frameAnalyses,
               analysisId = Some (analysisTimestamp w req),
               summary = generateAnalysisSummary frameAnalyses,
               sequenceAnalysis = None,
               message = AnalyzedFallback (length frameAnalyses)\<rparr>,
            evs @ [WriteFile, FetchFoul])
         else (ServerError ''Basketball analysis failed'', evs @ [WriteFile]))"

text \<open>
  The batch analysis: all images are read, one call is made with all of them, and the
  answer is parsed. An error of the file or of the call of the determination route is
  caught, and the analysis is still returned.
\<close>

definition batchPath :: "world \<Rightarrow> request \<Rightarrow> FrameData list \<Rightarrow> string \<Rightarrow> response \<times> event list" where
  "batchPath w req frames text =
     (let analysisText = trim text;
          frameAnalyses = parseMultiFrameAnalysis analysisText frames
      in if writeFile w then
           (Success
              \<lparr>analyses = frameAnalyses,
               analysisId = Some (analysisTimestamp w req),
               summary = generateAnalysisSummary frameAnalyses,
               sequenceAnalysis = extractSequenceAnalysis analysisText,
               message = Analyzed (length frameAnalyses)\<rparr>,
            [WriteFile, FetchFoul])
         else
           (Success
              \<lparr>analyses = frameAnalyses,
               analysisId = None,
               summary = generateAnalysisSummary frameAnalyses,
               sequenceAnalysis = extractSequenceAnalysis analysisText,
               message = AnalyzedNotSaved (length frameAnalyses)\<rparr>,
            [WriteFile]))"

text \<open>
  \<^verbatim>\<open>POST\<close>: the response and the calls made. The determination that the response
  carries comes from the other route and is left out.
\<close>

definition addEvents :: "event list \<Rightarrow> response \<times> event list \<Rightarrow> response \<times> event list" where
  "addEvents before r = (fst r, before @ snd r)"

definition POST :: "world \<Rightarrow> request \<Rightarrow> response \<times> event list" where
  "POST w req =
     (case framesField req of
        FramesMissing \<Rightarrow> (BadRequest ''Invalid frames data'', [])
      | FramesNotArray \<Rightarrow> (BadRequest ''Invalid frames data'', [])
      | FramesArray frames \<Rightarrow>
          (let reads = map (\<lambda>frame. ReadFile (path frame)) frames
           in if list_all (\<lambda>frame. readFile w (path frame)) frames then
                (case generateBatch w frames of
                   Some text \<Rightarrow>
                     addEvents (reads @ [GenerateBatch (length frames)])
                       (batchPath w req frames text)
                 | None \<Rightarrow>
                     addEvents (reads @ [GenerateBatch (length frames)])
                       (fallbackPath w req frames))
              else addEvents reads (fallbackPath w req frames)))"

section \<open>Notions used to state the properties\<close>

text \<open>A response given line by line: the lines joined by line feeds.\<close>

fun joinLines :: "string list \<Rightarrow> string" where
  "joinLines [] = []"
| "joinLines [l] = l"
| "joinLines (l # m # ls) = l @ CHR 0x0A # joinLines (m # ls)"











text \<open>A text in double quotes, to write the answers of the generation model.\<close>

definition quoted :: "string \<Rightarrow> string" where
  "quoted s = CHR 0x22 # s @ [CHR 0x22]"

text \<open>The two sides of the law of claim C5, read off a determination.\<close>

definition hasFoulTrue :: "json \<Rightarrow> bool" where
  "hasFoulTrue d \<longleftrightarrow> field d ''hasFoul'' = Some (JBool True)"

definition foulTypePresent :: "json \<Rightarrow> bool" where
  "foulTypePresent d \<longleftrightarrow> field d ''foulType'' \<noteq> None"

text \<open>The call for the frame at index \<open>i\<close> fails: its image cannot be read, or the model
  call throws.\<close>

definition callFails :: "world \<Rightarrow> nat \<Rightarrow> FrameData \<Rightarrow> bool" where
  "callFails w i frame \<longleftrightarrow> \<not> readFile w (path frame) \<or> generateSingle w i = None"

text \<open>
  Two worlds to run the route in. In the first the batch call answers in plain prose. In
  the second the batch call throws, and so does the call for the frame at index 1; the
  other frames get a one-line answer.
\<close>

definition proseWorld :: world where
  "proseWorld =
     \<lparr>readFile = (\<lambda>p. True),
      generateBatch = (\<lambda>fs. Some ''No frames were provided.''),
      generateSingle = (\<lambda>i. None),
      writeFile = True,
      now = 1700000000000\<rparr>"

definition brokenWorld :: world where
  "brokenWorld =
     \<lparr>readFile = (\<lambda>p. True),
      generateBatch = (\<lambda>fs. None),
      generateSingle = (\<lambda>i. if i = 1 then None else Some ''ACTION: A player drives.''),
      writeFile = True,
      now = 1700000000000\<rparr>"

definition threeFrames :: "FrameData list" where
  "threeFrames =
     [\<lparr>path = ''frames_1_01.jpg'', timestamp = 1\<rparr>,
      \<lparr>path = ''frames_1_02.jpg'', timestamp = 2\<rparr>,
      \<lparr>path = ''frames_1_03.jpg'', timestamp = 3\<rparr>]"

text \<open>Forty analysed frames, the first twenty-three of them with an indicator.\<close>

definition fortyAnalyses :: "FrameAnalysis list" where
  "fortyAnalyses =
     map (\<lambda>i. \<lparr>action = ''A player drives.'', playerMovement = ''moving'',
                contact = ''minimal'', ballStatus = ''held'',
                foulIndicators = (if i \<le> 23 then [''illegal contact''] else []),
                frameNumber = i, timestamp = int i\<rparr>)
       [1..<41]"

section \<open>Lines, and texts that trimming leaves alone\<close>

lemma split_no_sep: "d \<notin> set l \<Longrightarrow> split d l = [l]"
  by (induction l) auto



lemma trim_tidy: "s \<noteq> [] \<Longrightarrow> \<not> isWhiteSpace (hd s) \<Longrightarrow> \<not> isWhiteSpace (last s) \<Longrightarrow> trim s = s"
proof -
  assume a: "s \<noteq> []" "\<not> isWhiteSpace (hd s)" "\<not> isWhiteSpace (last s)"
  then have 1: "dropWhile isWhiteSpace s = s" by (cases s) auto
  from a have "rev s \<noteq> []" "\<not> isWhiteSpace (hd (rev s))" by (simp_all add: hd_rev)
  then have "dropWhile isWhiteSpace (rev s) = rev s" by (cases "rev s") auto
  with 1 show ?thesis by (simp add: trim_def)
qed


section \<open>The frames the batch parser returns\<close>

lemma frameNumber_finishFrame [simp]: "frameNumber (finishFrame frames n cur) = n"
  by (simp add: finishFrame_def)








section \<open>The two foul-indicator parsers compared\<close>

lemma lowerChar_fixed:
  "isWhiteSpace c \<or> c = CHR '','' \<or> c = CHR ''['' \<Longrightarrow> lowerChar c = c"
  by (auto simp: isWhiteSpace_def lowerChar_def)

lemma plain_lower:
  assumes "toLowerCase s = lit"
    and "\<forall>d\<in>set lit. \<not> isWhiteSpace d \<and> d \<noteq> CHR '','' \<and> d \<noteq> CHR ''[''"
  shows "\<forall>c\<in>set s. \<not> isWhiteSpace c \<and> c \<noteq> CHR '','' \<and> c \<noteq> CHR ''[''"
proof
  fix c assume c: "c \<in> set s"
  then have "lowerChar c \<in> set lit" using assms(1) by (auto simp: toLowerCase_def)
  then have l: "\<not> isWhiteSpace (lowerChar c) \<and> lowerChar c \<noteq> CHR '','' \<and> lowerChar c \<noteq> CHR ''[''"
    using assms(2) by blast
  show "\<not> isWhiteSpace c \<and> c \<noteq> CHR '','' \<and> c \<noteq> CHR ''[''"
    using l lowerChar_fixed [of c] by auto
qed

lemma trim_plain:
  assumes "\<forall>c\<in>set s. \<not> isWhiteSpace c"
  shows "trim s = s"
proof (cases "s = []")
  case True
  then show ?thesis by (simp add: trim_def)
next
  case False
  then show ?thesis using assms by (intro trim_tidy) simp_all
qed

lemma splitIndicators_plain:
  assumes "\<forall>c\<in>set s. \<not> isWhiteSpace c \<and> c \<noteq> CHR '',''"
  shows "splitIndicators s =
           (if s \<noteq> [] \<and> toLowerCase s \<noteq> ''none'' \<and> toLowerCase s \<noteq> ''n/a'' then [s] else [])"
proof -
  have "split (CHR '','') s = [s]" using assms by (intro split_no_sep) auto
  moreover have "trim s = s" using assms by (intro trim_plain) auto
  ultimately show ?thesis by (simp add: splitIndicators_def)
qed

lemma placeholder_plain:
  assumes "toLowerCase s = ''none'' \<or> toLowerCase s = ''n/a'' \<or> toLowerCase s = ''no indicators''
           \<or> toLowerCase s = ''no foul indicators'' \<or> toLowerCase s = ''not applicable''"
  shows "\<not> startsWith s ''[''" and "s \<noteq> []"
proof -
  have "s \<noteq> []" using assms by (auto simp: toLowerCase_def)
  moreover have "lowerChar (hd s) \<noteq> CHR ''[''"
    using assms \<open>s \<noteq> []\<close> by (cases s) (auto simp: toLowerCase_def)
  then have "hd s \<noteq> CHR ''[''" using lowerChar_fixed [of "hd s"] by auto
  ultimately show "\<not> startsWith s ''[''" "s \<noteq> []"
    by (cases s; simp add: startsWith_def)+
qed

lemma splitIndicators_placeholder:
  assumes "toLowerCase s = ''none'' \<or> toLowerCase s = ''n/a''"
  shows "splitIndicators s = []"
proof -
  have "\<forall>c\<in>set s. \<not> isWhiteSpace c \<and> c \<noteq> CHR '','' \<and> c \<noteq> CHR ''[''"
    using assms
  proof
    assume a: "toLowerCase s = ''none''"
    show ?thesis by (rule plain_lower [OF a]) (simp add: isWhiteSpace_def)
  next
    assume a: "toLowerCase s = ''n/a''"
    show ?thesis by (rule plain_lower [OF a]) (simp add: isWhiteSpace_def)
  qed
  then show ?thesis using assms by (subst splitIndicators_plain) auto
qed

lemma splitIndicators_Nil: "splitIndicators [] = []"
  by (simp add: splitIndicators_def trim_def)

text \<open>
  The two parsers give the same list for every trimmed text after the label, three kinds
  of placeholder apart: "no foul indicators" and "not applicable" in any letter case, and
  "no indicators" inside brackets.
\<close>

lemma parsers_agree:
  assumes tr: "trim ind = ind"
    and p1: "toLowerCase ind \<noteq> ''no foul indicators''" "toLowerCase ind \<noteq> ''not applicable''"
    and p2: "\<not> (startsWith ind ''['' \<and> endsWith ind '']'' \<and>
               toLowerCase (trim (slice_1_m1 ind)) = ''no indicators'')"
  shows "parseFoulIndicators ind = singleFoulIndicators ind"
proof (cases "ind = [] \<or> ind = ''[]'' \<or> ind = ''[ ]''")
  case True
  then show ?thesis by (auto simp: parseFoulIndicators_def singleFoulIndicators_def)
next
  case False
  show ?thesis
  proof (cases "toLowerCase ind = ''none'' \<or> toLowerCase ind = ''no indicators'' \<or>
                toLowerCase ind = ''n/a''")
    case True
    then have "\<not> startsWith ind ''[''" by (intro placeholder_plain(1)) auto
    then show ?thesis
      using True False tr by (auto simp: parseFoulIndicators_def singleFoulIndicators_def)
  next
    case np: False
    show ?thesis
    proof (cases "startsWith ind ''['' \<and> endsWith ind '']''")
      case True
      define bc where "bc = trim (slice_1_m1 ind)"
      have b: "parseFoulIndicators ind = splitIndicators bc"
        using False np True by (simp add: parseFoulIndicators_def bc_def)
      have s: "singleFoulIndicators ind =
            (if bc \<noteq> [] \<and> toLowerCase bc \<noteq> ''none'' \<and> toLowerCase bc \<noteq> ''no indicators'' \<and>
                toLowerCase bc \<noteq> ''n/a'' then splitIndicators bc else [])"
        using False True tr by (simp add: singleFoulIndicators_def bc_def Let_def)
      have "toLowerCase bc \<noteq> ''no indicators''" using p2 True by (simp add: bc_def)
      then show ?thesis
        using b s splitIndicators_placeholder [of bc] splitIndicators_Nil by auto
    next
      case nb: False
      then show ?thesis
        using False np p1 tr by (auto simp: parseFoulIndicators_def singleFoulIndicators_def)
    qed
  qed
qed

text \<open>
  Claim C3 fails on the code. The batch parser calls \<^verbatim>\<open>parseFoulIndicators\<close>; the
  single-frame parser has its own copy of the rules, with a longer list of placeholders.
  For the text "not applicable" after the label, the batch parser returns the indicator
  "not applicable" and the single-frame parser returns no indicator.
\<close>

theorem foul_indicator_paths_differ:
  "map foulIndicators
     (parseMultiFrameAnalysis (joinLines [''FRAME 1:'', ''FOUL_INDICATORS: not applicable''])
        [\<lparr>path = ''frames_1_01.jpg'', timestamp = 1\<rparr>]) = [[''not applicable'']] \<and>
   foulIndicators (parseAnalysisResponse ''FOUL_INDICATORS: not applicable'') = []"
  by code_simp

text \<open>The six placeholders that \<^verbatim>\<open>parseFoulIndicators\<close> knows, in any letter case.\<close>

lemma parseFoulIndicators_known_placeholders:
  "s = [] \<or> s = ''[]'' \<or> s = ''[ ]'' \<or> toLowerCase s = ''none'' \<or>
   toLowerCase s = ''no indicators'' \<or> toLowerCase s = ''n/a'' \<Longrightarrow>
   parseFoulIndicators s = []"
  by (auto simp: parseFoulIndicators_def)

text \<open>
  Claim C7 fails on the code for two of the eight literals: \<^verbatim>\<open>parseFoulIndicators\<close>
  does not know "no foul indicators" and "not applicable" and returns each of them as an
  indicator, where the parser of the single-frame path returns the empty list.
\<close>

theorem parseFoulIndicators_unknown_placeholders:
  "parseFoulIndicators ''no foul indicators'' = [''no foul indicators''] \<and>
   parseFoulIndicators ''not applicable'' = [''not applicable''] \<and>
   singleFoulIndicators ''no foul indicators'' = [] \<and>
   singleFoulIndicators ''not applicable'' = []"
  by code_simp

section \<open>The lookahead for bulleted indicators\<close>




















section \<open>The summary extractor and the position of the header\<close>







section \<open>The parser of JSON consumes its input and never runs out of fuel\<close>

lemma parseChars_shorter: "parseChars s acc = Some (k, r) \<Longrightarrow> length r < length s"
proof (induction s acc rule: parseChars.induct)
  case (1 acc)
  then show ?case by simp
next
  case (2 c cs acc)
  then show ?case
    by (auto split: if_splits list.splits option.splits simp: less_Suc_eq)
qed

lemma skipWs_length: "length (skipWs s) \<le> length s"
  by (simp add: skipWs_def length_dropWhile_le)

lemma parseFraction_length: "parseFraction s = Some (f, r) \<Longrightarrow> length r \<le> length s"
  by (auto simp: parseFraction_def split: list.splits if_splits
      intro: le_SucI length_dropWhile_le)

lemma parseExponent_length:
  assumes "parseExponent s = Some (f, r)"
  shows "length r \<le> length s"
proof (cases s)
  case Nil
  then show ?thesis using assms by (simp add: parseExponent_def)
next
  case (Cons c cs)
  show ?thesis
  proof (cases "c = CHR ''e'' \<or> c = CHR ''E''")
    case False
    then show ?thesis using assms Cons by (auto simp: parseExponent_def)
  next
    case True
    define sign where "sign = takeWhile (\<lambda>x. x = CHR ''+'' \<or> x = CHR ''-'') (take 1 cs)"
    have "r = dropWhile isDigit (drop (length sign) cs)"
      using assms Cons True by (auto simp: parseExponent_def Let_def sign_def split: if_splits)
    then have "length r \<le> length (drop (length sign) cs)"
      using length_dropWhile_le [of isDigit "drop (length sign) cs"] by simp
    then show ?thesis using Cons by simp
  qed
qed

lemma parseNumber_shorter: "parseNumber s = Some (l, r) \<Longrightarrow> length r < length s"
proof -
  assume a: "parseNumber s = Some (l, r)"
  define sign where "sign = takeWhile (\<lambda>x. x = CHR ''-'') (take 1 s)"
  obtain c cs where s1: "drop (length sign) s = c # cs"
    using a by (auto simp: parseNumber_def Let_def sign_def split: list.splits)
  define ds where "ds = (if c = CHR ''0'' then [] else takeWhile isDigit cs)"
  obtain f s3 where f: "parseFraction (drop (length ds) cs) = Some (f, s3)"
    using a s1 by (auto simp: parseNumber_def Let_def sign_def ds_def split: list.splits if_splits option.splits)
  obtain e where e: "parseExponent s3 = Some (e, r)"
    using a s1 f by (auto simp: parseNumber_def Let_def sign_def ds_def split: list.splits if_splits option.splits)
  have "length r \<le> length s3" using e by (rule parseExponent_length)
  also have "\<dots> \<le> length (drop (length ds) cs)" using f by (rule parseFraction_length)
  also have "\<dots> \<le> length cs" by simp
  also have "\<dots> < length (c # cs)" by simp
  also have "\<dots> \<le> length s" using s1 [symmetric] by simp
  finally show ?thesis .
qed


lemma skipWs_Cons_length: "skipWs s = d # ds \<Longrightarrow> length ds < length s"
  using skipWs_length [of s] by simp

lemma parse_shorter:
  "parseValue n s = Inr (v, r) \<Longrightarrow> length r < length s"
  "parseElements n s acc = Inr (v, r) \<Longrightarrow> length r < length s"
  "parseMembers n s kvs = Inr (v, r) \<Longrightarrow> length r < length s"
proof (induction n s and n s acc and n s kvs arbitrary: v r and v r and v r
    rule: parseValue_parseElements_parseMembers.induct)
  case (1 s)
  then show ?case by simp
next
  case (2 n s)
  show ?case
  proof (cases s)
    case Nil
    then show ?thesis using "2.prems" by simp
  next
    case (Cons c cs)
    consider (obj) "c = CHR ''{''" | (arr) "c \<noteq> CHR ''{''" "c = CHR ''[''"
      | (str) "c \<noteq> CHR ''{''" "c \<noteq> CHR ''[''" "c = CHR 0x22"
      | (other) "c \<noteq> CHR ''{''" "c \<noteq> CHR ''[''" "c \<noteq> CHR 0x22"
      by blast
    then show ?thesis
    proof cases
      case obj
      show ?thesis
      proof (cases "skipWs cs")
        case Nil
        then show ?thesis using "2.prems" Cons obj by simp
      next
        case inner: (Cons d ds)
        show ?thesis
        proof (cases "d = CHR ''}''")
          case True
          then have "r = ds" using "2.prems" Cons obj inner by simp
          then show ?thesis using skipWs_Cons_length [OF inner] Cons by simp
        next
          case False
          then have "parseMembers n (d # ds) [] = Inr (v, r)"
            using "2.prems" Cons obj inner by simp
          then have "length r < length (d # ds)"
            using "2.IH"(1) [OF Cons obj inner False] by blast
          then show ?thesis using skipWs_length [of cs] inner Cons by simp
        qed
      qed
    next
      case arr
      show ?thesis
      proof (cases "skipWs cs")
        case Nil
        then show ?thesis using "2.prems" Cons arr by simp
      next
        case inner: (Cons d ds)
        show ?thesis
        proof (cases "d = CHR '']''")
          case True
          then have "r = ds" using "2.prems" Cons arr inner by simp
          then show ?thesis using skipWs_Cons_length [OF inner] Cons by simp
        next
          case False
          then have "parseElements n (d # ds) [] = Inr (v, r)"
            using "2.prems" Cons arr inner by simp
          then have "length r < length (d # ds)"
            using "2.IH"(2) [OF Cons arr inner False] by blast
          then show ?thesis using skipWs_length [of cs] inner Cons by simp
        qed
      qed
    next
      case str
      then obtain k where "parseChars cs [] = Some (k, r)"
        using "2.prems" Cons by (auto split: option.splits)
      then show ?thesis using parseChars_shorter Cons by fastforce
    next
      case other
      then show ?thesis
        using "2.prems" Cons
        by (auto simp: startsWith_def split: if_splits option.splits dest: parseNumber_shorter)
    qed
  qed
next
  case (3 s acc)
  then show ?case by simp
next
  case (4 n s acc)
  obtain v1 r1 where pv: "parseValue n s = Inr (v1, r1)"
    using "4.prems" by (auto split: sum.splits)
  have l1: "length r1 < length s" using "4.IH"(1) [OF pv] .
  obtain d ds where sk: "skipWs r1 = d # ds"
    using "4.prems" pv by (auto split: list.splits)
  have l2: "length ds < length r1" using sk by (rule skipWs_Cons_length)
  show ?case
  proof (cases "d = CHR '',''")
    case True
    then have "parseElements n (skipWs ds) (acc @ [v1]) = Inr (v, r)"
      using "4.prems" pv sk by simp
    then have "length r < length (skipWs ds)"
      using "4.IH"(2) [OF pv refl sk True] by blast
    then show ?thesis using l1 l2 skipWs_length [of ds] by linarith
  next
    case False
    then have "r = ds" using "4.prems" pv sk by (auto split: if_splits)
    then show ?thesis using l1 l2 by simp
  qed
next
  case (5 s acc)
  then show ?case by simp
next
  case (6 n s acc)
  obtain q cs where s: "s = q # cs" "q = CHR 0x22"
    using "6.prems" by (auto split: list.splits if_splits)
  obtain k r1 where pc: "parseChars cs [] = Some (k, r1)"
    using "6.prems" s by (auto split: option.splits)
  have l1: "length r1 < length cs" using pc by (rule parseChars_shorter)
  obtain col r2 where sk1: "skipWs r1 = col # r2" "col = CHR '':''"
    using "6.prems" s pc by (auto split: list.splits if_splits)
  have l2: "length r2 < length r1" using sk1(1) by (rule skipWs_Cons_length)
  obtain v1 r3 where pv: "parseValue n (skipWs r2) = Inr (v1, r3)"
    using "6.prems" s pc sk1 by (auto split: sum.splits)
  have l3: "length r3 < length (skipWs r2)"
    using "6.IH"(1) [OF s(1) _ pc refl sk1(1) _ pv] s(2) sk1(2) by simp
  obtain d ds where sk2: "skipWs r3 = d # ds"
    using "6.prems" s pc sk1 pv by (auto split: list.splits)
  have l4: "length ds < length r3" using sk2 by (rule skipWs_Cons_length)
  have chain: "length ds < length cs"
    using l1 l2 l3 l4 skipWs_length [of r2] by linarith
  show ?case
  proof (cases "d = CHR '',''")
    case True
    then have "parseMembers n (skipWs ds) (setField acc k v1) = Inr (v, r)"
      using "6.prems" s pc sk1 pv sk2 by simp
    then have "length r < length (skipWs ds)"
      using "6.IH"(2) [OF s(1) _ pc refl sk1(1) _ pv refl sk2 True] s(2) sk1(2) by simp
    then show ?thesis using chain skipWs_length [of ds] s by simp
  next
    case False
    then have "r = ds" using "6.prems" s pc sk1 pv sk2 by (auto split: if_splits)
    then show ?thesis using chain s by simp
  qed
qed


lemma parse_fuel:
  "2 * length s < n \<Longrightarrow> parseValue n s \<noteq> Inl OutOfFuel"
  "2 * length s + 1 < n \<Longrightarrow> parseElements n s acc \<noteq> Inl OutOfFuel"
  "2 * length s < n \<Longrightarrow> parseMembers n s kvs \<noteq> Inl OutOfFuel"
proof (induction n s and n s acc and n s kvs
    rule: parseValue_parseElements_parseMembers.induct)
  case (1 s)
  then show ?case by simp
next
  case (2 n s)
  show ?case
  proof (cases s)
    case Nil
    then show ?thesis by simp
  next
    case (Cons c cs)
    consider (obj) "c = CHR ''{''" | (arr) "c \<noteq> CHR ''{''" "c = CHR ''[''"
      | (other) "c \<noteq> CHR ''{''" "c \<noteq> CHR ''[''"
      by blast
    then show ?thesis
    proof cases
      case obj
      show ?thesis
      proof (cases "skipWs cs")
        case Nil
        then show ?thesis using Cons obj by simp
      next
        case inner: (Cons d ds)
        have len: "2 * length (d # ds) < n"
          using skipWs_length [of cs] inner Cons "2.prems" by simp
        show ?thesis
        proof (cases "d = CHR ''}''")
          case True
          then show ?thesis using Cons obj inner by simp
        next
          case False
          then show ?thesis
            using "2.IH"(1) [OF Cons obj inner False len] Cons obj inner by simp
        qed
      qed
    next
      case arr
      show ?thesis
      proof (cases "skipWs cs")
        case Nil
        then show ?thesis using Cons arr by simp
      next
        case inner: (Cons d ds)
        have len: "2 * length (d # ds) + 1 < n"
          using skipWs_length [of cs] inner Cons "2.prems" by simp
        show ?thesis
        proof (cases "d = CHR '']''")
          case True
          then show ?thesis using Cons arr inner by simp
        next
          case False
          then show ?thesis
            using "2.IH"(2) [OF Cons arr inner False len] Cons arr inner by simp
        qed
      qed
    next
      case other
      then show ?thesis
        using Cons by (auto split: option.splits)
    qed
  qed
next
  case (3 s acc)
  then show ?case by simp
next
  case (4 n s acc)
  have v: "parseValue n s \<noteq> Inl OutOfFuel"
    using "4.IH"(1) "4.prems" by simp
  show ?case
  proof (cases "parseValue n s")
    case (Inl e)
    then show ?thesis using v by simp
  next
    case (Inr p)
    obtain v1 r1 where p: "p = (v1, r1)" by (cases p)
    have pv: "parseValue n s = Inr (v1, r1)" using Inr p by simp
    have l1: "length r1 < length s" using parse_shorter(1) [OF pv] .
    show ?thesis
    proof (cases "skipWs r1")
      case Nil
      then show ?thesis using pv by simp
    next
      case (Cons d ds)
      have l2: "length ds < length r1" using Cons by (rule skipWs_Cons_length)
      show ?thesis
      proof (cases "d = CHR '',''")
        case True
        have "2 * length (skipWs ds) + 1 < n"
          using l1 l2 skipWs_length [of ds] "4.prems" by linarith
        then show ?thesis
          using "4.IH"(2) [OF pv refl Cons True] pv Cons True by simp
      next
        case False
        then show ?thesis using pv Cons by simp
      qed
    qed
  qed
next
  case (5 s acc)
  then show ?case by simp
next
  case (6 n s acc)
  show ?case
  proof (cases s)
    case Nil
    then show ?thesis by simp
  next
    case s: (Cons q cs)
    show ?thesis
    proof (cases "q \<noteq> CHR 0x22")
      case True
      then show ?thesis using s by simp
    next
      case quote: False
      show ?thesis
      proof (cases "parseChars cs []")
        case None
        then show ?thesis using s quote by simp
      next
        case (Some kr)
        obtain k r1 where kr: "kr = (k, r1)" by (cases kr)
        have pc: "parseChars cs [] = Some (k, r1)" using Some kr by simp
        have l1: "length r1 < length cs" using pc by (rule parseChars_shorter)
        show ?thesis
        proof (cases "skipWs r1")
          case Nil
          then show ?thesis using s quote pc by simp
        next
          case sk1: (Cons col r2)
          have l2: "length r2 < length r1" using sk1 by (rule skipWs_Cons_length)
          show ?thesis
          proof (cases "col \<noteq> CHR '':''")
            case True
            then show ?thesis using s quote pc sk1 by simp
          next
            case col: False
            have lv: "2 * length (skipWs r2) < n"
              using l1 l2 skipWs_length [of r2] s "6.prems" by simp
            have v: "parseValue n (skipWs r2) \<noteq> Inl OutOfFuel"
              using "6.IH"(1) [OF s quote pc refl sk1 col lv] .
            show ?thesis
            proof (cases "parseValue n (skipWs r2)")
              case (Inl e)
              then show ?thesis using v s quote pc sk1 col by simp
            next
              case (Inr p)
              obtain v1 r3 where p: "p = (v1, r3)" by (cases p)
              have pv: "parseValue n (skipWs r2) = Inr (v1, r3)" using Inr p by simp
              have l3: "length r3 < length (skipWs r2)" using parse_shorter(1) [OF pv] .
              show ?thesis
              proof (cases "skipWs r3")
                case Nil
                then show ?thesis using s quote pc sk1 col pv by simp
              next
                case sk2: (Cons d ds)
                have l4: "length ds < length r3" using sk2 by (rule skipWs_Cons_length)
                show ?thesis
                proof (cases "d = CHR '',''")
                  case True
                  have "2 * length (skipWs ds) < n"
                    using l1 l2 l3 l4 skipWs_length [of r2] skipWs_length [of ds] s "6.prems"
                    by simp
                  then show ?thesis
                    using "6.IH"(2) [OF s quote pc refl sk1 col pv refl sk2 True]
                      s quote pc sk1 col pv sk2 True by simp
                next
                  case False
                  then show ?thesis using s quote pc sk1 col pv sk2 by simp
                qed
              qed
            qed
          qed
        qed
      qed
    qed
  qed
qed

lemma JSON_parse_fuel: "JSON_parse text \<noteq> Inl OutOfFuel"
proof -
  have "2 * length (skipWs text) < 2 * length text + 1"
    using skipWs_length [of "text"] by simp
  then have "parseValue (2 * length text + 1) (skipWs text) \<noteq> Inl OutOfFuel"
    by (rule parse_fuel(1))
  then show ?thesis
    unfolding JSON_parse_def
    by (cases "parseValue (2 * length text + 1) (skipWs text)") (simp_all add: split_def)
qed

section \<open>The determination step\<close>

lemma matchAt_star_no_close:
  "CHR ''}'' \<notin> set s \<Longrightarrow> matchAt [Star (\<lambda>c. True), One (\<lambda>c. c = CHR ''}'')] s = None"
  by (induction s) auto

lemma matchAt_json_no_close: "CHR ''}'' \<notin> set s \<Longrightarrow> matchAt jsonRe s = None"
  by (cases s) (simp_all add: jsonRe_def matchAt_star_no_close)

lemma matchAt_json_no_open: "CHR ''{'' \<notin> set s \<Longrightarrow> matchAt jsonRe s = None"
  by (cases s) (auto simp: jsonRe_def)

lemma search_none:
  "(\<And>t. set t \<subseteq> set s \<Longrightarrow> matchAt re t = None) \<Longrightarrow> search re i s = None"
proof (induction s arbitrary: i)
  case Nil
  then show ?case by simp
next
  case (Cons c cs)
  have "matchAt re (c # cs) = None" using Cons.prems by simp
  moreover have "search re (Suc i) cs = None"
    using Cons.prems by (intro Cons.IH) auto
  ultimately show ?case by simp
qed

lemma jsonMatch_no_braces:
  assumes "CHR ''{'' \<notin> set text \<or> CHR ''}'' \<notin> set text"
  shows "jsonMatch text = None"
proof -
  have "matchAt jsonRe t = None" if "set t \<subseteq> set text" for t
    using assms that matchAt_json_no_open [of t] matchAt_json_no_close [of t] by auto
  then have "search jsonRe 0 text = None" by (rule search_none)
  then show ?thesis by (simp add: jsonMatch_def)
qed

lemma fallback_no_foul:
  "\<not> hasFoulTrue fallbackDetermination" "\<not> foulTypePresent fallbackDetermination"
  by (simp_all add: hasFoulTrue_def foulTypePresent_def field_def fallbackDetermination_def js_def)

text \<open>
  Claim C2 fails on the code. The comment above the default determination reads
  "Fallback if JSON parsing fails", but the default is reached only when the answer holds
  no span in braces. When there is a span and \<^verbatim>\<open>JSON.parse\<close> rejects it, the
  \<^verbatim>\<open>SyntaxError\<close> is caught, logged and thrown again: here the span is
  \<^verbatim>\<open>{no foul}\<close>, and the step ends with the error.
\<close>

theorem makeFinalDetermination_parse_error_leaves:
  "jsonMatch ''The ruling is {no foul}.'' = Some ''{no foul}'' \<and>
   JSON_parse ''{no foul}'' = Inl SyntaxError \<and>
   makeFinalDetermination (Inr ''The ruling is {no foul}.'') = Inl (ParseFailed SyntaxError)"
  by code_simp

text \<open>
  Claim C5, as the code has it. The step checks nothing in a parsed determination. An
  answer without a span in braces gives the default determination, in which
  \<^verbatim>\<open>hasFoul\<close> is false and \<^verbatim>\<open>foulType\<close> is absent; an answer whose span parses is
  returned as \<^verbatim>\<open>JSON.parse\<close> gives it.
\<close>

theorem makeFinalDetermination_foulType:
  "(CHR ''{'' \<notin> set text \<or> CHR ''}'' \<notin> set text \<longrightarrow>
      makeFinalDetermination (Inr text) = Inr fallbackDetermination) \<and>
   \<not> hasFoulTrue fallbackDetermination \<and> \<not> foulTypePresent fallbackDetermination \<and>
   (jsonMatch text = Some m \<and> JSON_parse m = Inr d \<longrightarrow>
      makeFinalDetermination (Inr text) = Inr d)"
proof (intro conjI impI)
  assume "CHR ''{'' \<notin> set text \<or> CHR ''}'' \<notin> set text"
  then have "jsonMatch text = None" by (rule jsonMatch_no_braces)
  then show "makeFinalDetermination (Inr text) = Inr fallbackDetermination"
    by (simp add: makeFinalDetermination_def)
next
  show "\<not> hasFoulTrue fallbackDetermination" "\<not> foulTypePresent fallbackDetermination"
    by (rule fallback_no_foul)+
next
  assume "jsonMatch text = Some m \<and> JSON_parse m = Inr d"
  then show "makeFinalDetermination (Inr text) = Inr d"
    by (simp add: makeFinalDetermination_def)
qed

text \<open>
  The theorem at an answer in plain prose, and at an answer that is one JSON object.
\<close>

theorem makeFinalDetermination_foulType_witness:
  "CHR ''{'' \<notin> set ''I cannot tell from these frames.'' \<and>
   makeFinalDetermination (Inr ''I cannot tell from these frames.'') = Inr fallbackDetermination \<and>
   jsonMatch (''{'' @ quoted ''hasFoul'' @ '': true, '' @ quoted ''foulType'' @ '': '' @
              quoted ''charging foul'' @ ''}'') =
     Some (''{'' @ quoted ''hasFoul'' @ '': true, '' @ quoted ''foulType'' @ '': '' @
           quoted ''charging foul'' @ ''}'') \<and>
   makeFinalDetermination
     (Inr (''{'' @ quoted ''hasFoul'' @ '': true, '' @ quoted ''foulType'' @ '': '' @
           quoted ''charging foul'' @ ''}'')) =
     Inr (JObject [(js ''hasFoul'', JBool True), (js ''foulType'', JString (js ''charging foul''))])"
proof -
  let ?t = "''{'' @ quoted ''hasFoul'' @ '': true, '' @ quoted ''foulType'' @ '': '' @
           quoted ''charging foul'' @ ''}''"
  let ?d = "JObject [(js ''hasFoul'', JBool True), (js ''foulType'', JString (js ''charging foul''))]"
  have a: "CHR ''{'' \<notin> set ''I cannot tell from these frames.''"
    by simp
  have b: "jsonMatch ?t = Some ?t"
    by code_simp
  have c: "JSON_parse ?t = Inr ?d"
    by code_simp
  have 1: "makeFinalDetermination (Inr ''I cannot tell from these frames.'') =
           Inr fallbackDetermination"
    using makeFinalDetermination_foulType [of "''I cannot tell from these frames.''"] a
    by blast
  have 2: "makeFinalDetermination (Inr ?t) = Inr ?d"
    using makeFinalDetermination_foulType [of ?t ?t ?d] b c
    by blast
  show ?thesis
    using a b 1 2 by blast
qed

text \<open>
  Claim C5 as stated fails: the answer below has \<^verbatim>\<open>hasFoul\<close> false and names a
  \<^verbatim>\<open>foulType\<close>, and the step returns it unchanged.
\<close>

theorem makeFinalDetermination_foulType_counterexample:
  "makeFinalDetermination
     (Inr (''{'' @ quoted ''hasFoul'' @ '': false, '' @ quoted ''foulType'' @ '': '' @
           quoted ''blocking foul'' @ ''}'')) =
     Inr (JObject [(js ''hasFoul'', JBool False), (js ''foulType'', JString (js ''blocking foul''))]) \<and>
   \<not> hasFoulTrue
       (JObject [(js ''hasFoul'', JBool False), (js ''foulType'', JString (js ''blocking foul''))]) \<and>
   foulTypePresent
     (JObject [(js ''hasFoul'', JBool False), (js ''foulType'', JString (js ''blocking foul''))])"
  by code_simp

section \<open>The fallback loop and the validation of a request\<close>

lemma fallbackLoop_length: "length (fst (fallbackLoop w i fs)) = length fs"
  by (induction fs arbitrary: i) (simp_all add: split_def Let_def)

lemma fallbackLoop_nth:
  "k < length fs \<Longrightarrow> fst (fallbackLoop w i fs) ! k = fst (fallbackFrame w (i + k) (fs ! k))"
proof (induction fs arbitrary: i k)
  case Nil
  then show ?case by simp
next
  case (Cons f fs)
  show ?case
  proof (cases k)
    case 0
    then show ?thesis by (simp add: split_def Let_def)
  next
    case (Suc j)
    then have "j < length fs" using Cons.prems by simp
    then have "fst (fallbackLoop w (Suc i) fs) ! j = fst (fallbackFrame w (Suc i + j) (fs ! j))"
      by (rule Cons.IH)
    then show ?thesis using Suc by (simp add: split_def Let_def)
  qed
qed

lemma fallbackFrame_cases:
  "fst (fallbackFrame w i f) =
     (if callFails w i f then failedFrame i f
      else (case generateSingle w i of Some t \<Rightarrow> analysedFrame i f t | None \<Rightarrow> failedFrame i f))"
  by (simp add: fallbackFrame_def callFails_def split: option.splits)

lemma fallbackFrame_number: "frameNumber (fst (fallbackFrame w i f)) = i + 1"
  by (simp add: fallbackFrame_def failedFrame_def analysedFrame_def Let_def split: option.splits)

lemma fallbackFrame_timestamp:
  "FrameAnalysis.timestamp (fst (fallbackFrame w i f)) = FrameData.timestamp f"
  by (simp add: fallbackFrame_def failedFrame_def analysedFrame_def Let_def split: option.splits)

lemma fallbackLoop_numbers:
  "map frameNumber (fst (fallbackLoop w 0 fs)) = [1..<length fs + 1]"
  by (rule nth_equalityI)
    (simp_all add: fallbackLoop_length fallbackLoop_nth fallbackFrame_number del: upt_Suc)

text \<open>
  Claim C9, as the code has it. The fallback loop returns one record per frame, in order,
  numbered from 1 and carrying the frame's own time stamp, however many calls fail. The
  record of a frame whose call fails has the action "Failed to analyze frame", the other
  three text fields "Unknown" and no indicators; the record of any other frame is the
  parse of the answer for that frame. When the batch call throws and the file can be
  written, these records are the analyses of the response.
\<close>

theorem fallback_records:
  "length (fst (fallbackLoop w 0 fs)) = length fs \<and>
   map frameNumber (fst (fallbackLoop w 0 fs)) = [1..<length fs + 1] \<and>
   (\<forall>k<length fs.
      FrameAnalysis.timestamp (fst (fallbackLoop w 0 fs) ! k) = FrameData.timestamp (fs ! k) \<and>
      (callFails w k (fs ! k) \<longrightarrow> fst (fallbackLoop w 0 fs) ! k = failedFrame k (fs ! k)) \<and>
      (\<forall>t. readFile w (path (fs ! k)) \<and> generateSingle w k = Some t \<longrightarrow>
           fst (fallbackLoop w 0 fs) ! k = analysedFrame k (fs ! k) t)) \<and>
   (framesField req = FramesArray fs \<and> generateBatch w fs = None \<and> writeFile w \<longrightarrow>
      (\<exists>s evs. POST w req = (Success s, evs) \<and> analyses s = fst (fallbackLoop w 0 fs)))"
proof (intro conjI allI impI)
  show "length (fst (fallbackLoop w 0 fs)) = length fs" by (rule fallbackLoop_length)
  show "map frameNumber (fst (fallbackLoop w 0 fs)) = [1..<length fs + 1]"
    by (rule fallbackLoop_numbers)
next
  fix k assume k: "k < length fs"
  show "FrameAnalysis.timestamp (fst (fallbackLoop w 0 fs) ! k) = FrameData.timestamp (fs ! k)"
    using k by (simp add: fallbackLoop_nth fallbackFrame_timestamp)
  show "fst (fallbackLoop w 0 fs) ! k = failedFrame k (fs ! k)" if "callFails w k (fs ! k)"
    using k that by (simp add: fallbackLoop_nth fallbackFrame_cases)
  show "fst (fallbackLoop w 0 fs) ! k = analysedFrame k (fs ! k) t"
    if "readFile w (path (fs ! k)) \<and> generateSingle w k = Some t" for t
    using k that by (simp add: fallbackLoop_nth fallbackFrame_cases callFails_def)
next
  assume a: "framesField req = FramesArray fs \<and> generateBatch w fs = None \<and> writeFile w"
  obtain as evs where l: "fallbackLoop w 0 fs = (as, evs)" by (cases "fallbackLoop w 0 fs")
  show "\<exists>s evs. POST w req = (Success s, evs) \<and> analyses s = fst (fallbackLoop w 0 fs)"
    using a l by (auto simp: POST_def fallbackPath_def addEvents_def Let_def)
qed

text \<open>
  The theorem in the world where the batch call and the call for the second of three
  frames throw.
\<close>

theorem fallback_records_witness:
  "callFails brokenWorld 1 (threeFrames ! 1) \<and>
   length (fst (fallbackLoop brokenWorld 0 threeFrames)) = 3 \<and>
   map frameNumber (fst (fallbackLoop brokenWorld 0 threeFrames)) = [1, 2, 3] \<and>
   fst (fallbackLoop brokenWorld 0 threeFrames) ! 1 =
     \<lparr>action = ''Failed to analyze frame'', playerMovement = ''Unknown'',
      contact = ''Unknown'', ballStatus = ''Unknown'', foulIndicators = [],
      frameNumber = 2, timestamp = 2\<rparr> \<and>
   fst (fallbackLoop brokenWorld 0 threeFrames) ! 2 =
     \<lparr>action = ''A player drives.'', playerMovement = ''Unknown movement'',
      contact = ''Unknown contact'', ballStatus = ''Unknown ball status'', foulIndicators = [],
      frameNumber = 3, timestamp = 3\<rparr> \<and>
   (\<exists>s evs. POST brokenWorld \<lparr>framesField = FramesArray threeFrames, timestampField = None\<rparr> =
              (Success s, evs) \<and>
            analyses s = fst (fallbackLoop brokenWorld 0 threeFrames))"
proof -
  let ?req = "\<lparr>framesField = FramesArray threeFrames, timestampField = None\<rparr>"
  have h: "callFails brokenWorld 1 (threeFrames ! 1)"
    "readFile brokenWorld (path (threeFrames ! 2)) \<and>
     generateSingle brokenWorld 2 = Some ''ACTION: A player drives.''"
    "framesField ?req = FramesArray threeFrames \<and> generateBatch brokenWorld threeFrames = None \<and>
     writeFile brokenWorld"
    "(1::nat) < length threeFrames" "(2::nat) < length threeFrames" "length threeFrames = 3"
    by (simp_all add: callFails_def brokenWorld_def threeFrames_def)
  have v: "failedFrame 1 (threeFrames ! 1) =
     \<lparr>action = ''Failed to analyze frame'', playerMovement = ''Unknown'',
      contact = ''Unknown'', ballStatus = ''Unknown'', foulIndicators = [],
      frameNumber = 2, timestamp = 2\<rparr>"
    "analysedFrame 2 (threeFrames ! 2) ''ACTION: A player drives.'' =
     \<lparr>action = ''A player drives.'', playerMovement = ''Unknown movement'',
      contact = ''Unknown contact'', ballStatus = ''Unknown ball status'', foulIndicators = [],
      frameNumber = 3, timestamp = 3\<rparr>"
    by code_simp+
  have n: "[1..<length threeFrames + 1] = [1, 2, 3]"
    by (simp add: threeFrames_def upt_rec)
  show ?thesis
    using fallback_records [of brokenWorld threeFrames ?req] h v n
    by (metis (no_types, lifting))
qed

text \<open>
  Claim C9 as stated fails: the record that stands for the failed frame does not have
  "Unknown" in all its text fields. Its action is "Failed to analyze frame".
\<close>

theorem fallback_sentinel_action_counterexample:
  "map action (fst (fallbackLoop brokenWorld 0 threeFrames)) =
     [''A player drives.'', ''Failed to analyze frame'', ''A player drives.''] \<and>
   map frameNumber (fst (fallbackLoop brokenWorld 0 threeFrames)) = [1, 2, 3]"
  by code_simp

text \<open>
  Claim C4, as the code has it. The route rejects a request whose frame list is absent or
  is not an array, with status 400 and before any call. It does not look at the length of
  the list: a request with an array of frames, empty or not, is never answered with the
  client fault, and for the empty array the batch call to the model is the first call
  made, with no image.
\<close>

theorem POST_validation:
  "(framesField req = FramesMissing \<or> framesField req = FramesNotArray \<longrightarrow>
      POST w req = (BadRequest ''Invalid frames data'', [])) \<and>
   (framesField req = FramesArray fs \<longrightarrow> (\<forall>m. fst (POST w req) \<noteq> BadRequest m)) \<and>
   (framesField req = FramesArray [] \<longrightarrow>
      (\<exists>evs. snd (POST w req) = GenerateBatch 0 # evs))"
proof (intro conjI impI allI)
  assume "framesField req = FramesMissing \<or> framesField req = FramesNotArray"
  then show "POST w req = (BadRequest ''Invalid frames data'', [])"
    by (auto simp: POST_def)
next
  fix m assume "framesField req = FramesArray fs"
  then show "fst (POST w req) \<noteq> BadRequest m"
    by (auto simp: POST_def addEvents_def batchPath_def fallbackPath_def Let_def split_def
        split: option.splits)
next
  assume "framesField req = FramesArray []"
  then show "\<exists>evs. snd (POST w req) = GenerateBatch 0 # evs"
    by (auto simp: POST_def addEvents_def split: option.splits)
qed

text \<open>The theorem at a request without frames and at a request with an empty array.\<close>

theorem POST_validation_witness:
  "POST proseWorld \<lparr>framesField = FramesMissing, timestampField = None\<rparr> =
     (BadRequest ''Invalid frames data'', []) \<and>
   fst (POST proseWorld \<lparr>framesField = FramesArray [], timestampField = None\<rparr>) \<noteq>
     BadRequest ''Invalid frames data'' \<and>
   (\<exists>evs. snd (POST proseWorld \<lparr>framesField = FramesArray [], timestampField = None\<rparr>) =
            GenerateBatch 0 # evs)"
proof -
  have 1: "framesField \<lparr>framesField = FramesMissing, timestampField = None\<rparr> = FramesMissing"
    and 2: "framesField \<lparr>framesField = FramesArray [], timestampField = None\<rparr> = FramesArray []"
    by simp_all
  show ?thesis
    using POST_validation
        [of "\<lparr>framesField = FramesMissing, timestampField = None\<rparr>" proseWorld "[]"]
      POST_validation
        [of "\<lparr>framesField = FramesArray [], timestampField = None\<rparr>" proseWorld "[]"]
      1 2
    by blast
qed

text \<open>
  Claim C4 as stated fails: a request with an empty array of frames is analysed. The model
  is called, the file is written, the response is a success, and the summary divides by
  a total of zero frames: its percentage is \<^verbatim>\<open>NaN\<close>.
\<close>

theorem POST_empty_frames_counterexample:
  "POST proseWorld \<lparr>framesField = FramesArray [], timestampField = Some 1700000000001\<rparr> =
     (Success
        \<lparr>analyses = [],
         analysisId = Some 1700000000001,
         summary =
           \<lparr>totalFrames = 0, framesWithFoulIndicators = 0, foulIndicatorPercentage = NaN,
            commonFoulIndicators = [], recommendation = ''No clear foul indicators detected''\<rparr>,
         sequenceAnalysis = None,
         message = Analyzed 0\<rparr>,
      [GenerateBatch 0, WriteFile, FetchFoul])"
  by code_simp

section \<open>The double nearest to a rational number\<close>

text \<open>
  The exponent is the one of the binade of \<open>x\<close>, and rounding to an integer moves a
  number by at most one half: \<open>toDouble x\<close> is a multiple of the unit in the last place of
  \<open>x\<close>, at most half a unit away from \<open>x\<close>.
\<close>

lemma pow2_powi: "pow2 e = 2 powi e"
  by (simp add: pow2_def power_int_def field_simps)

lemma pow2_pos: "0 < pow2 e"
  by (simp add: pow2_powi)

lemma pow2_Suc: "pow2 (e + 1) = 2 * pow2 e"
  by (simp add: pow2_powi power_int_add)

lemma pow2_diff: "pow2 (a - b) = pow2 a / pow2 b"
  by (simp add: pow2_powi power_int_diff)

lemma bits_nonneg: "0 \<le> bits n"
proof (induction n rule: bits.induct)
  case (1 n)
  then show ?case using bits.simps [of n] by (cases "n \<le> 0") simp_all
qed

lemma bits_bounds:
  "0 < n \<Longrightarrow> pow2 (bits n - 1) \<le> of_int n \<and> of_int n < pow2 (bits n)"
proof (induction n rule: bits.induct)
  case (1 n)
  show ?case
  proof (cases "n div 2 = 0")
    case True
    then have "n = 1" using "1.prems" by presburger
    then have "bits n = 1" using bits.simps [of 1] bits.simps [of 0] by simp
    then show ?thesis using \<open>n = 1\<close> by (simp add: pow2_def)
  next
    case False
    then have h: "0 < n div 2" using "1.prems" by presburger
    have ih: "pow2 (bits (n div 2) - 1) \<le> of_int (n div 2) \<and>
              of_int (n div 2) < pow2 (bits (n div 2))"
      using "1.IH" "1.prems" h by simp
    have b: "bits n = bits (n div 2) + 1" using "1.prems" bits.simps [of n] by simp
    have lo: "2 * (n div 2) \<le> n" and hi: "n \<le> 2 * (n div 2) + 1"
      by presburger+
    have lo': "2 * (of_int (n div 2) :: rat) \<le> of_int n"
    proof -
      have "(of_int (2 * (n div 2)) :: rat) \<le> of_int n"
        using lo by (simp only: of_int_le_iff)
      then show ?thesis by simp
    qed
    have hi': "(of_int n :: rat) \<le> 2 * of_int (n div 2) + 1"
    proof -
      have "(of_int n :: rat) \<le> of_int (2 * (n div 2) + 1)"
        using hi by (simp only: of_int_le_iff)
      then show ?thesis by simp
    qed
    have i: "(of_int (n div 2) :: rat) + 1 \<le> pow2 (bits (n div 2))"
    proof -
      have "bits (n div 2) \<ge> 0" by (rule bits_nonneg)
      then have e: "pow2 (bits (n div 2)) = of_int (2 ^ nat (bits (n div 2)))"
        by (simp add: pow2_def)
      have "n div 2 < 2 ^ nat (bits (n div 2))"
        using ih unfolding e by (simp only: of_int_less_iff)
      then have "n div 2 + 1 \<le> 2 ^ nat (bits (n div 2))" by simp
      then have "(of_int (n div 2 + 1) :: rat) \<le> of_int (2 ^ nat (bits (n div 2)))"
        by (simp only: of_int_le_iff)
      then show ?thesis unfolding e by simp
    qed
    have "pow2 (bits n - 1) = 2 * pow2 (bits (n div 2) - 1)"
      using pow2_Suc [of "bits (n div 2) - 1"] b by simp
    also have "\<dots> \<le> 2 * of_int (n div 2)" using ih by simp
    also have "\<dots> \<le> of_int n" by (rule lo')
    finally have 1: "pow2 (bits n - 1) \<le> of_int n" .
    have "(of_int n :: rat) \<le> 2 * of_int (n div 2) + 1" by (rule hi')
    also have "\<dots> < 2 * (of_int (n div 2) + 1)" by simp
    also have "\<dots> \<le> 2 * pow2 (bits (n div 2))" using i by simp
    also have "\<dots> = pow2 (bits n)" using pow2_Suc [of "bits (n div 2)"] b by simp
    finally have 2: "of_int n < pow2 (bits n)" .
    show ?thesis using 1 2 by simp
  qed
qed

lemma exponent_bounds:
  assumes "0 < x"
  shows "pow2 (exponent x) \<le> x \<and> x < pow2 (exponent x + 1)"
proof -
  obtain p q where pq: "quotient_of x = (p, q)" by (cases "quotient_of x")
  have q: "0 < q" using pq by (rule quotient_of_denom_pos)
  have x: "x = of_int p / of_int q" using pq by (rule quotient_of_div)
  have p: "0 < p" using assms q x by (simp add: zero_less_divide_iff)
  define d where "d = bits p - bits q"
  have bp: "pow2 (bits p - 1) \<le> of_int p" "of_int p < pow2 (bits p)"
    using bits_bounds [OF p] by simp_all
  have bq: "pow2 (bits q - 1) \<le> of_int q" "of_int q < pow2 (bits q)"
    using bits_bounds [OF q] by simp_all
  have qpos: "(0::rat) < of_int q" using q by simp
  have lower: "pow2 (d - 1) < x"
  proof -
    have "pow2 (d - 1) = pow2 (bits p - 1) / pow2 (bits q)"
      using pow2_diff [of "bits p - 1" "bits q"] by (simp add: d_def algebra_simps)
    also have "\<dots> \<le> of_int p / pow2 (bits q)"
      using bp(1) pow2_pos [of "bits q"] by (simp add: divide_right_mono)
    also have "\<dots> < of_int p / of_int q"
      using bq(2) qpos p by (simp add: divide_strict_left_mono pow2_pos)
    finally show ?thesis using x by simp
  qed
  have upper: "x < pow2 (d + 1)"
  proof -
    have "x = of_int p / of_int q" by (rule x)
    also have "\<dots> < pow2 (bits p) / of_int q"
      using bp(2) qpos by (simp add: divide_strict_right_mono)
    also have "\<dots> \<le> pow2 (bits p) / pow2 (bits q - 1)"
      using bq(1) pow2_pos [of "bits q - 1"] pow2_pos [of "bits p"]
      by (simp add: divide_left_mono)
    also have "\<dots> = pow2 (d + 1)"
      using pow2_diff [of "bits p" "bits q - 1"] by (simp add: d_def algebra_simps)
    finally show ?thesis .
  qed
  have e: "exponent x = (if pow2 d \<le> x then d else d - 1)"
    by (simp add: exponent_def pq d_def Let_def)
  show ?thesis
  proof (cases "pow2 d \<le> x")
    case True
    then show ?thesis using e upper by simp
  next
    case False
    then show ?thesis using e lower by simp
  qed
qed

lemma roundHalfEven_near: "\<bar>of_int (roundHalfEven y) - y\<bar> \<le> 1 / 2"
proof -
  define f where "f = \<lfloor>y\<rfloor>"
  define r where "r = y - of_int f"
  define R where "R = roundHalfEven y"
  have r: "0 \<le> r" "r < 1" unfolding r_def f_def by linarith+
  have rhe: "R = (if r < 1 / 2 then f else if 1 / 2 < r then f + 1
                 else if even f then f else f + 1)"
    by (simp add: R_def roundHalfEven_def Let_def f_def r_def)
  have "(R = f \<and> r \<le> 1 / 2) \<or> (R = f + 1 \<and> 1 / 2 \<le> r)"
    unfolding rhe by auto
  then have "\<bar>of_int R - y\<bar> \<le> 1 / 2"
  proof
    assume a: "R = f \<and> r \<le> 1 / 2"
    then have "of_int R - y = - r" by (simp add: r_def)
    then show ?thesis using a r by simp
  next
    assume a: "R = f + 1 \<and> 1 / 2 \<le> r"
    then have "of_int R - y = 1 - r" by (simp add: r_def)
    then show ?thesis using a r by simp
  qed
  then show ?thesis by (simp add: R_def)
qed

lemma toDouble_pos_eq:
  "0 < x \<Longrightarrow> toDouble x = of_int (roundHalfEven (x / pow2 (exponent x - 52))) * pow2 (exponent x - 52)"
  by (simp add: toDouble_def Let_def)

lemma toDouble_error:
  assumes "0 < x"
  shows "\<bar>toDouble x - x\<bar> \<le> x / 2 ^ 53"
proof -
  define u where "u = pow2 (exponent x - 52)"
  have u: "0 < u" by (simp add: u_def pow2_pos)
  have ue: "u = pow2 (exponent x) / 2 ^ 52"
    using pow2_diff [of "exponent x" 52] by (simp add: u_def pow2_def)
  have "pow2 (exponent x) \<le> x" using exponent_bounds [OF assms] by simp
  then have ux: "u \<le> x / 2 ^ 52" by (simp add: ue divide_right_mono)
  define R where "R = (of_int (roundHalfEven (x / u)) :: rat)"
  have near: "\<bar>R - x / u\<bar> \<le> 1 / 2" unfolding R_def by (rule roundHalfEven_near)
  have "toDouble x - x = (R - x / u) * u"
    using u by (simp add: toDouble_pos_eq [OF assms] u_def [symmetric] R_def field_simps)
  then have "\<bar>toDouble x - x\<bar> = \<bar>R - x / u\<bar> * u"
    using u by (simp add: abs_mult)
  also have "\<dots> \<le> (1 / 2) * u"
    using near u by (intro mult_right_mono) simp_all
  also have "\<dots> \<le> (1 / 2) * (x / 2 ^ 52)"
    using ux by (intro mult_left_mono) simp_all
  also have "\<dots> = x / 2 ^ 53" by simp
  finally show ?thesis .
qed

section \<open>The percentage of the summary\<close>

text \<open>
  Away from a tie the two roundings of the doubles do no harm: for a total below
  \<open>2 ^ 32\<close>, the bound on the length of an array, the percentage is the exact one
  whenever \<open>100 * k / n\<close> is not halfway between two integers.
\<close>

lemma floor_stable:
  fixes t b :: rat and N D :: int
  assumes D: "0 < D" and tD: "t = of_int N / of_int D" and r: "N mod D \<noteq> 0"
    and close: "\<bar>b - t\<bar> < 1 / of_int D"
  shows "\<lfloor>b\<rfloor> = \<lfloor>t\<rfloor>"
proof -
  define m where "m = N div D"
  define r where "r = N mod D"
  have N: "N = m * D + r" by (simp add: m_def r_def)
  have "0 \<le> N mod D" "N mod D < D"
    using D by (simp_all add: pos_mod_bound)
  then have rb: "1 \<le> r" "r \<le> D - 1"
    using r by (simp_all add: r_def)
  have Dq: "(0::rat) < of_int D" using D by simp
  have t: "t = of_int m + of_int r / of_int D"
    using Dq by (simp add: tD N field_simps)
  have lo: "of_int m + 1 / of_int D \<le> t"
  proof -
    have "(1::rat) \<le> of_int r" using rb(1) by simp
    then have "1 / of_int D \<le> (of_int r :: rat) / of_int D"
      using Dq by (simp add: divide_right_mono)
    then show ?thesis by (simp add: t)
  qed
  have hi: "t \<le> of_int m + 1 - 1 / of_int D"
  proof -
    have "(of_int r :: rat) \<le> of_int D - 1" using rb(2) by (metis of_int_le_iff of_int_diff of_int_1)
    then have "(of_int r :: rat) / of_int D \<le> (of_int D - 1) / of_int D"
      using Dq by (simp add: divide_right_mono)
    also have "\<dots> = 1 - 1 / of_int D" using Dq by (simp add: field_simps)
    finally show ?thesis by (simp add: t)
  qed
  have "of_int m < b" "b < of_int m + 1" using lo hi close by linarith+
  then have "\<lfloor>b\<rfloor> = m" by linarith
  moreover have "0 < 1 / (of_int D :: rat)" using Dq by simp
  then have "of_int m \<le> t" "t < of_int m + 1" using lo hi by linarith+
  then have "\<lfloor>t\<rfloor> = m" by linarith
  ultimately show ?thesis by simp
qed


lemma percentage_no_tie:
  assumes n: "0 < n" "n < 2 ^ 32" and k: "k \<le> n"
    and notie: "(200 * int k + int n) mod (2 * int n) \<noteq> 0"
  shows "Math_round (times_100 (divide_lengths k n)) =
         Finite (of_int \<lfloor>100 * of_nat k / of_nat n + (1 / 2 :: rat)\<rfloor>)"
proof (cases "k = 0")
  case True
  then show ?thesis
    using n by (simp add: Math_round_def times_100_def divide_lengths_def toDouble_def)
next
  case False
  define x where "x = (of_nat k / of_nat n :: rat)"
  define a where "a = toDouble x"
  define y where "y = a * 100"
  define b where "b = toDouble y"
  define t where "t = 100 * x"
  have nq: "(0::rat) < of_nat n" using n by simp
  have x0: "0 < x" using False nq by (simp add: x_def)
  have x1: "x \<le> 1" using k nq by (simp add: x_def)
  define eps where "eps = (1 / 2 ^ 53 :: rat)"
  have eps: "0 < eps" "eps < 1" "300 * eps < 1 / 2 ^ 33" by (simp_all add: eps_def)
  have rel: "z / 2 ^ 53 = z * eps" for z :: rat by (simp add: eps_def)
  have ea: "\<bar>a - x\<bar> \<le> x * eps"
    unfolding a_def using toDouble_error [OF x0] by (simp only: rel)
  have "x * eps \<le> 1 * eps" using x1 eps(1) by (intro mult_right_mono) simp_all
  then have ea1: "\<bar>a - x\<bar> \<le> eps" using ea by linarith
  have "x * eps < x * 1" using x0 eps(2) by (intro mult_strict_left_mono) simp_all
  then have a0: "0 < a" using ea by linarith
  have y0: "0 < y" using a0 by (simp add: y_def)
  have a2: "a \<le> 2" using ea1 x1 eps(2) by linarith
  have y2: "y \<le> 200" using a2 by (simp add: y_def)
  have eb: "\<bar>b - y\<bar> \<le> y * eps"
    unfolding b_def using toDouble_error [OF y0] by (simp only: rel)
  have "y * eps \<le> 200 * eps" using y2 eps(1) by (intro mult_right_mono) simp_all
  then have eb1: "\<bar>b - y\<bar> \<le> 200 * eps" using eb by linarith
  have yt: "\<bar>y - t\<bar> \<le> 100 * eps"
  proof -
    have "y - t = 100 * (a - x)" by (simp add: y_def t_def)
    then have "\<bar>y - t\<bar> = \<bar>100 * (a - x)\<bar>" by (rule arg_cong)
    also have "\<dots> = 100 * \<bar>a - x\<bar>" by (simp only: abs_mult abs_numeral)
    finally have e: "\<bar>y - t\<bar> = 100 * \<bar>a - x\<bar>" .
    have "100 * \<bar>a - x\<bar> \<le> 100 * eps"
      using ea1 by (intro mult_left_mono) simp_all
    then show ?thesis by (simp only: e)
  qed
  have bt: "\<bar>b - t\<bar> \<le> 300 * eps" using eb1 yt by linarith
  define D where "D = 2 * int n"
  define N where "N = 200 * int k + int n"
  have D0: "0 < D" using n by (simp add: D_def)
  have "int n < 2 ^ 32" using n(2) by (metis of_nat_less_iff of_nat_numeral of_nat_power)
  then have D33: "D < 2 ^ 33" by (simp add: D_def)
  have tN: "t + 1 / 2 = of_int N / of_int D"
    using nq by (simp add: t_def x_def N_def D_def field_simps)
  have small: "300 * eps < 1 / of_int D"
  proof -
    have "(of_int D :: rat) < 2 ^ 33"
      using D33 by (metis of_int_less_iff of_int_numeral of_int_power)
    moreover have "(0::rat) < of_int D" using D0 by simp
    ultimately have "1 / (2 ^ 33 :: rat) < 1 / of_int D"
      by (simp add: frac_less2)
    then show ?thesis using eps(3) by linarith
  qed
  have close: "\<bar>(b + 1 / 2) - (t + 1 / 2)\<bar> < 1 / of_int D"
    using bt small by linarith
  have fl: "\<lfloor>b + 1 / 2\<rfloor> = \<lfloor>t + 1 / 2\<rfloor>"
    using floor_stable [OF D0 tN _ close] notie by (simp add: N_def D_def)
  have "Math_round (times_100 (divide_lengths k n)) = Finite (of_int \<lfloor>b + 1 / 2\<rfloor>)"
    using n by (simp add: Math_round_def times_100_def divide_lengths_def b_def y_def a_def x_def)
  also have "\<dots> = Finite (of_int \<lfloor>t + 1 / 2\<rfloor>)" by (simp only: fl)
  also have "t + 1 / 2 = 100 * of_nat k / of_nat n + 1 / 2" by (simp add: t_def x_def)
  finally show ?thesis .
qed


text \<open>
  Claim C6 fails on the code for the percentage. The summary computes
  \<^verbatim>\<open>Math.round((k / n) * 100)\<close> in doubles, and the quotient is rounded before it is
  multiplied. For 23 flagged frames out of 40 the quotient is the double below 0.575, the
  product is the double 57.49999999999999 and the percentage is 57, while 100 * 23 / 40
  is 57.5, which rounds to 58. The other fields are as the claim says.
\<close>

theorem generateAnalysisSummary_percentage_23_of_40:
  "generateAnalysisSummary fortyAnalyses =
     \<lparr>totalFrames = 40, framesWithFoulIndicators = 23, foulIndicatorPercentage = Finite 57,
      commonFoulIndicators = [''illegal contact''],
      recommendation = ''Potential foul detected - review flagged frames''\<rparr> \<and>
   divide_lengths 23 40 = Finite (5179139571476070 / 2 ^ 53) \<and>
   times_100 (divide_lengths 23 40) = Finite (8092405580431359 / 2 ^ 47) \<and>
   \<lfloor>(100 * 23 / 40 :: rat) + 1 / 2\<rfloor> = 58"
  by code_simp

section \<open>The fields of the summary\<close>

lemma newSet_fold:
  "set (foldl (\<lambda>seen x. if x \<in> set seen then seen else seen @ [x]) seen xs) = set seen \<union> set xs \<and>
   (distinct seen \<longrightarrow> distinct (foldl (\<lambda>seen x. if x \<in> set seen then seen else seen @ [x]) seen xs))"
  by (induction xs arbitrary: seen) auto

lemma newSet_set: "set (newSet xs) = set xs"
  using newSet_fold [of "[]" xs] by (simp add: newSet_def)

lemma newSet_distinct: "distinct (newSet xs)"
  using newSet_fold [of "[]" xs] by (simp add: newSet_def)

text \<open>
  The count, the union and the recommendation are as the specification describes them,
  for every sequence of analysed frames.
\<close>

lemma generateAnalysisSummary_fields:
  "totalFrames (generateAnalysisSummary as) = length as"
  "framesWithFoulIndicators (generateAnalysisSummary as) =
     length (filter (\<lambda>a. foulIndicators a \<noteq> []) as)"
  "set (commonFoulIndicators (generateAnalysisSummary as)) = (\<Union>a\<in>set as. set (foulIndicators a))"
  "distinct (commonFoulIndicators (generateAnalysisSummary as))"
  "recommendation (generateAnalysisSummary as) =
     (if \<exists>a\<in>set as. foulIndicators a \<noteq> []
      then ''Potential foul detected - review flagged frames''
      else ''No clear foul indicators detected'')"
  by (auto simp: generateAnalysisSummary_def Let_def newSet_set newSet_distinct filter_empty_conv)

end
